theory Spec2Isabelle
  imports Main
begin

section \<open>Values shared by all components\<close>

text \<open>
  A Go byte slice and a Go string are both sequences of bytes; \<open>char\<close> is the 8-bit
  byte of HOL, so both are \<open>char list\<close>. The length of a slice handed to \<open>Read\<close> is a
  \<open>nat\<close>. Values of Go's \<open>int\<close> and \<open>int64\<close> are HOL integers. \<open>int64\<close> has 64 bits and
  \<open>int\<close> has 32 or 64 bits, depending on the platform; \<open>wrap b x\<close> is the value that a
  signed integer of \<open>b\<close> bits holds after a conversion or an operation whose exact result
  is \<open>x\<close>. It is written out in the pass-through buffer, whose size comes from the
  caller as an \<open>int64\<close>; elsewhere the quantities are lengths, offsets and counters
  of in-memory data, and the statements bound them.
\<close>

type_synonym byte = char

definition wrap :: "nat \<Rightarrow> int \<Rightarrow> int" where
  "wrap b x = (x + 2 ^ (b - 1)) mod 2 ^ b - 2 ^ (b - 1)"

datatype error =
    EOF
  | ErrorString string
  | Canceled
  | External nat

text \<open>
  \<open>EOF\<close> is \<open>io.EOF\<close>, \<open>ErrorString s\<close> is \<open>errors.New(s)\<close>, \<open>Canceled\<close> is what
  \<open>ctx.Err()\<close> returns once the writer's context is done, and \<open>External n\<close> is an
  error value produced by the backend or the operating system, opaque to the writer.
  A run-time panic is not an error value: it ends the call without a result.
\<close>

datatype panic = NilDereference | SliceBounds | NilMap | NilChannel | ClosedChannel

datatype 'a res = Panic panic | Ret 'a

text \<open>
  The running state of a \<open>hash.Hash\<close> is represented by the bytes written to it since
  \<open>sha1.New()\<close> or the last \<open>Reset()\<close>; \<open>Sum(nil)\<close> is a function \<open>H\<close> of these bytes.
  SHA-1 itself belongs to the Go library, so \<open>H\<close> is a parameter of every definition
  that reads a digest.
\<close>

type_synonym hashfn = "byte list \<Rightarrow> byte list"

definition hexdigit :: "nat \<Rightarrow> char" where
  "hexdigit n = ''0123456789abcdef'' ! n"

definition fmt_x :: "byte list \<Rightarrow> string" where
  "fmt_x bs = concat (map (\<lambda>b. [hexdigit ((of_char b :: nat) div 16),
                                  hexdigit ((of_char b :: nat) mod 16)]) bs)"

definition SeekStart :: int where "SeekStart = 0"
definition SeekCurrent :: int where "SeekCurrent = 1"
definition SeekEnd :: int where "SeekEnd = 2"

section \<open>Readers of the Go library used by the buffers\<close>

text \<open>
  \<open>bytes.Reader\<close> and \<open>strings.Reader\<close> run the same code over a byte sequence
  \<open>rd_s\<close> with a read index \<open>rd_i\<close>. \<open>Read\<close> with a slice of length \<open>k\<close> returns the
  bytes copied, the error, and the reader after the call.
\<close>

record reader =
  rd_s :: "byte list"
  rd_i :: int

definition NewReader :: "byte list \<Rightarrow> reader" where
  "NewReader s = \<lparr>rd_s = s, rd_i = 0\<rparr>"

definition reader_Read :: "reader \<Rightarrow> nat \<Rightarrow> byte list \<times> error option \<times> reader" where
  "reader_Read rd k =
     (if rd_i rd \<ge> int (length (rd_s rd)) then ([], Some EOF, rd)
      else let bs = take k (drop (nat (rd_i rd)) (rd_s rd))
           in (bs, None, rd\<lparr>rd_i := rd_i rd + int (length bs)\<rparr>))"

definition reader_Seek :: "reader \<Rightarrow> int \<Rightarrow> int \<Rightarrow> int \<times> error option \<times> reader" where
  "reader_Seek rd offset whence =
     (if whence \<noteq> SeekStart \<and> whence \<noteq> SeekCurrent \<and> whence \<noteq> SeekEnd
      then (0, Some (ErrorString ''bytes.Reader.Seek: invalid whence''), rd)
      else let abs = (if whence = SeekStart then offset
                      else if whence = SeekCurrent then wrap 64 (rd_i rd + offset)
                      else wrap 64 (int (length (rd_s rd)) + offset))
           in if abs < 0 then (0, Some (ErrorString ''bytes.Reader.Seek: negative position''), rd)
              else (abs, None, rd\<lparr>rd_i := abs\<rparr>))"

text \<open>
  The source of a pass-through buffer is any \<open>io.ReaderAt\<close>. It holds the bytes
  \<open>ra_s\<close>, and \<open>ReadAt\<close> with a slice of length \<open>k\<close> delivers the bytes found at the
  offset, at most \<open>k\<close> of them, with \<open>io.EOF\<close> when they are fewer than \<open>k\<close>. The
  interface leaves two things to the implementation, and the model leaves them to
  the source, call by call (\<open>ra_calls\<close> counts the calls made so far): a call that
  delivers the last bytes of the source in full may report \<open>io.EOF\<close> with them or
  \<open>nil\<close> (\<open>ra_eof\<close>), and a call may fail with an I/O error after the first \<open>m\<close> of its
  bytes (\<open>ra_err\<close>).
\<close>

record readerAt =
  ra_s :: "byte list"
  ra_eof :: "nat \<Rightarrow> bool"
  ra_err :: "nat \<Rightarrow> (nat \<times> error) option"
  ra_calls :: nat

definition ReadAt :: "readerAt \<Rightarrow> nat \<Rightarrow> int \<Rightarrow> byte list \<times> error option \<times> readerAt" where
  "ReadAt ra k off =
     (let ra' = ra\<lparr>ra_calls := ra_calls ra + 1\<rparr>
      in if off < 0 then ([], Some (ErrorString ''ReadAt: negative offset''), ra')
         else if off \<ge> int (length (ra_s ra)) then ([], Some EOF, ra')
         else let bs = take k (drop (nat off) (ra_s ra))
              in (case ra_err ra (ra_calls ra) of
                    Some (m, e) \<Rightarrow> (take m bs, Some e, ra')
                  | None \<Rightarrow>
                      (bs,
                       if length bs < k \<or>
                          (ra_eof ra (ra_calls ra) \<and> nat off + length bs = length (ra_s ra))
                       then Some EOF else None,
                       ra')))"

text \<open>
  \<open>io.SectionReader\<close>: the window \<open>[base, limit)\<close> of a \<open>ReaderAt\<close>. Its offsets are
  \<open>int64\<close> values.
\<close>

record sectionReader =
  sr_r :: readerAt
  sr_base :: int
  sr_off :: int
  sr_limit :: int

definition maxint64 :: int where
  "maxint64 = 9223372036854775807"

definition NewSectionReader :: "readerAt \<Rightarrow> int \<Rightarrow> int \<Rightarrow> sectionReader" where
  "NewSectionReader r off n =
     \<lparr>sr_r = r, sr_base = off, sr_off = off,
      sr_limit = (if off \<le> wrap 64 (maxint64 - n) then wrap 64 (n + off) else maxint64)\<rparr>"

definition section_Read :: "sectionReader \<Rightarrow> nat \<Rightarrow> byte list \<times> error option \<times> sectionReader" where
  "section_Read s k =
     (if sr_off s \<ge> sr_limit s then ([], Some EOF, s)
      else let k' = (if int k > wrap 64 (sr_limit s - sr_off s)
                     then nat (wrap 64 (sr_limit s - sr_off s)) else k);
               (bs, e, r') = ReadAt (sr_r s) k' (sr_off s)
           in (bs, e, s\<lparr>sr_r := r', sr_off := wrap 64 (sr_off s + int (length bs))\<rparr>))"

definition section_Seek :: "sectionReader \<Rightarrow> int \<Rightarrow> int \<Rightarrow> int \<times> error option \<times> sectionReader" where
  "section_Seek s offset whence =
     (if whence \<noteq> SeekStart \<and> whence \<noteq> SeekCurrent \<and> whence \<noteq> SeekEnd
      then (0, Some (ErrorString ''Seek: invalid whence''), s)
      else let off' = (if whence = SeekStart then wrap 64 (offset + sr_base s)
                       else if whence = SeekCurrent then wrap 64 (offset + sr_off s)
                       else wrap 64 (offset + sr_limit s))
           in if off' < sr_base s then (0, Some (ErrorString ''Seek: invalid offset''), s)
              else (wrap 64 (off' - sr_base s), None, s\<lparr>sr_off := off'\<rparr>))"

text \<open>
  The caller's \<open>io.ReadSeeker\<close> handed to \<open>ReadFrom\<close>: an in-memory source that reads
  like \<open>bytes.Reader\<close>; \<open>rs_fail\<close> is the error its \<open>Seek\<close> returns when the device
  cannot seek.
\<close>

record readSeeker =
  rs_rd :: reader
  rs_fail :: "error option"

definition rs_Read :: "readSeeker \<Rightarrow> nat \<Rightarrow> byte list \<times> error option \<times> readSeeker" where
  "rs_Read rs k = (let (bs, e, rd) = reader_Read (rs_rd rs) k in (bs, e, rs\<lparr>rs_rd := rd\<rparr>))"

definition rs_Seek :: "readSeeker \<Rightarrow> int \<Rightarrow> int \<Rightarrow> int \<times> error option \<times> readSeeker" where
  "rs_Seek rs offset whence =
     (case rs_fail rs of
        Some e \<Rightarrow> (0, Some e, rs)
      | None \<Rightarrow> (let (n, e, rd) = reader_Seek (rs_rd rs) offset whence
                 in (n, e, rs\<lparr>rs_rd := rd\<rparr>)))"

section \<open>buffer.go: the pass-through buffer\<close>

text \<open>
  \<open>bits\<close> is the width of \<open>int\<close> on the platform: \<open>newNonBuffer\<close> converts the \<open>int64\<close>
  size to \<open>int\<close>, and \<open>Len\<close> adds 40 to it in \<open>int\<close>.
\<close>

record nonBuffer =
  nb_r :: sectionReader
  nb_size :: int
  nb_hsh :: "byte list"
  nb_isEOF :: bool
  nb_buf :: "reader option"

definition newNonBuffer :: "nat \<Rightarrow> readerAt \<Rightarrow> int \<Rightarrow> int \<Rightarrow> nonBuffer" where
  "newNonBuffer bits rs offset size' =
     \<lparr>nb_r = NewSectionReader rs offset size', nb_size = wrap bits size', nb_hsh = [],
      nb_isEOF = False, nb_buf = None\<rparr>"

definition nb_Len :: "nat \<Rightarrow> nonBuffer \<Rightarrow> int" where
  "nb_Len bits nb = wrap bits (nb_size nb + 40)"

definition nb_Hash :: "nonBuffer \<Rightarrow> string" where
  "nb_Hash nb = ''hex_digits_at_end''"

definition nb_Close :: "nonBuffer \<Rightarrow> error option" where
  "nb_Close nb = None"

definition nb_Write :: "nonBuffer \<Rightarrow> byte list \<Rightarrow> int \<times> error option \<times> nonBuffer" where
  "nb_Write nb p = (0, Some (ErrorString ''writes not supported''), nb)"

definition nb_Read :: "hashfn \<Rightarrow> nonBuffer \<Rightarrow> nat \<Rightarrow> (byte list \<times> error option \<times> nonBuffer) res" where
  "nb_Read H nb k =
     (if nb_isEOF nb then
        (case nb_buf nb of
           None \<Rightarrow> Panic NilDereference
         | Some b \<Rightarrow> (let (bs, e, b') = reader_Read b k in Ret (bs, e, nb\<lparr>nb_buf := Some b'\<rparr>)))
      else
        (let (bs, e, r') = section_Read (nb_r nb) k;
             nb' = nb\<lparr>nb_r := r', nb_hsh := nb_hsh nb @ bs\<rparr>
         in if e = Some EOF
            then Ret (bs, None, nb'\<lparr>nb_isEOF := True,
                                     nb_buf := Some (NewReader (fmt_x (H (nb_hsh nb'))))\<rparr>)
            else Ret (bs, e, nb')))"

definition nb_Seek :: "nonBuffer \<Rightarrow> int \<Rightarrow> int \<Rightarrow> int \<times> error option \<times> nonBuffer" where
  "nb_Seek nb offset whence =
     (let (n, e, r') = section_Seek (nb_r nb) offset whence
      in (n, e, nb\<lparr>nb_hsh := [], nb_isEOF := False, nb_r := r'\<rparr>))"

text \<open>
  The transport reads a body until \<open>io.EOF\<close>, as \<open>io.ReadAll\<close> does: one \<open>Read\<close> per
  slice length in \<open>ks\<close>, keeping the bytes of every call, the last one included.
  \<open>None\<close> means that the calls in \<open>ks\<close> were used up before the reader reported an
  error; \<open>Some (Ret (bs, None))\<close> is a stream that ended with \<open>io.EOF\<close>.
\<close>

fun nb_ReadAll :: "hashfn \<Rightarrow> nonBuffer \<Rightarrow> nat list \<Rightarrow> (byte list \<times> error option) res option" where
  "nb_ReadAll H nb [] = None"
| "nb_ReadAll H nb (k # ks) =
     (case nb_Read H nb k of
        Panic x \<Rightarrow> Some (Panic x)
      | Ret (bs, e, nb') \<Rightarrow>
          (case e of
             Some err \<Rightarrow> Some (Ret (bs, if err = EOF then None else Some err))
           | None \<Rightarrow>
               (case nb_ReadAll H nb' ks of
                  None \<Rightarrow> None
                | Some (Panic x) \<Rightarrow> Some (Panic x)
                | Some (Ret (cs, e')) \<Rightarrow> Some (Ret (bs @ cs, e')))))"

text \<open>
  \<open>nb_Reads\<close> is the buffer after a sequence of \<open>Read\<close> calls whose results are
  dropped; \<open>nb_window\<close> says that a buffer still reads the window \<open>[off, lim)\<close> of
  the source \<open>ra\<close>, whatever the number of calls the source has served, and holds its
  digest text once it has seen the end of the window.
\<close>

fun nb_Reads :: "hashfn \<Rightarrow> nonBuffer \<Rightarrow> nat list \<Rightarrow> nonBuffer res" where
  "nb_Reads H nb [] = Ret nb"
| "nb_Reads H nb (k # ks) =
     (case nb_Read H nb k of Panic x \<Rightarrow> Panic x | Ret (bs, e, nb') \<Rightarrow> nb_Reads H nb' ks)"

definition nb_window :: "readerAt \<Rightarrow> int \<Rightarrow> int \<Rightarrow> nonBuffer \<Rightarrow> bool" where
  "nb_window ra off lim nb \<longleftrightarrow>
     (sr_r (nb_r nb))\<lparr>ra_calls := 0\<rparr> = ra\<lparr>ra_calls := 0\<rparr> \<and>
     sr_base (nb_r nb) = off \<and> sr_limit (nb_r nb) = lim \<and>
     (nb_isEOF nb \<longrightarrow> nb_buf nb \<noteq> None)"

section \<open>buffer.go: the memory buffer and the file buffer\<close>

text \<open>
  \<open>mb_buf\<close> is \<open>None\<close> once \<open>Close\<close> has returned the buffer to the pool and set the
  field to nil. A file buffer holds the bytes of its scratch file; \<open>fb_room\<close> is the
  number of bytes the file system still accepts (a write beyond it is cut short
  with an error), and \<open>fb_closed\<close> says that the file was closed and removed. The
  writer never writes to a buffer after it has asked for its reader, so the file is
  append-only here.
\<close>

record memoryBuffer =
  mb_buf :: "byte list option"
  mb_hsh :: "byte list"

record fileBuffer =
  fb_f :: "byte list"
  fb_hsh :: "byte list"
  fb_s :: int
  fb_room :: nat
  fb_closed :: bool

datatype writeBuffer = MemoryBuffer memoryBuffer | FileBuffer fileBuffer

definition newMemoryBuffer :: memoryBuffer where
  "newMemoryBuffer = \<lparr>mb_buf = Some [], mb_hsh = []\<rparr>"

definition mb_Write :: "memoryBuffer \<Rightarrow> byte list \<Rightarrow> int \<times> error option \<times> memoryBuffer" where
  "mb_Write mb p =
     (int (length p), None,
      mb\<lparr>mb_hsh := mb_hsh mb @ p, mb_buf := map_option (\<lambda>b. b @ p) (mb_buf mb)\<rparr>)"

definition mb_Len :: "memoryBuffer \<Rightarrow> int res" where
  "mb_Len mb = (case mb_buf mb of None \<Rightarrow> Panic NilDereference | Some b \<Rightarrow> Ret (int (length b)))"

definition mb_Hash :: "hashfn \<Rightarrow> memoryBuffer \<Rightarrow> string" where
  "mb_Hash H mb = fmt_x (H (mb_hsh mb))"

definition mb_Close :: "memoryBuffer \<Rightarrow> error option \<times> memoryBuffer" where
  "mb_Close mb = (None, mb\<lparr>mb_buf := None\<rparr>)"

definition errClosed :: error where
  "errClosed = ErrorString ''file already closed''"

definition fb_Write :: "fileBuffer \<Rightarrow> byte list \<Rightarrow> int \<times> error option \<times> fileBuffer" where
  "fb_Write fb p =
     (if fb_closed fb then (0, Some errClosed, fb)
      else if length p \<le> fb_room fb
      then (int (length p), None,
            fb\<lparr>fb_f := fb_f fb @ p, fb_hsh := fb_hsh fb @ p,
               fb_s := fb_s fb + int (length p), fb_room := fb_room fb - length p\<rparr>)
      else (int (fb_room fb), Some (External 28),
            fb\<lparr>fb_f := fb_f fb @ take (fb_room fb) p,
               fb_s := fb_s fb + int (fb_room fb), fb_room := 0\<rparr>))"

definition fb_Len :: "fileBuffer \<Rightarrow> int" where
  "fb_Len fb = fb_s fb"

definition fb_Hash :: "hashfn \<Rightarrow> fileBuffer \<Rightarrow> string" where
  "fb_Hash H fb = fmt_x (H (fb_hsh fb))"

definition fb_Close :: "fileBuffer \<Rightarrow> error option \<times> fileBuffer" where
  "fb_Close fb = (if fb_closed fb then (Some (External 2), fb) else (None, fb\<lparr>fb_closed := True\<rparr>))"

section \<open>The readers of the writer (writer.go)\<close>

record hashReader =
  hr_h :: "byte list"
  hr_r :: readSeeker
  hr_isEOF :: bool
  hr_buf :: "reader option"



text \<open>
  The \<open>io.ReadSeeker\<close> values the writer wraps in a metered reader: the
  \<open>bytes.Reader\<close> of a memory buffer, the \<open>fr\<close> of a file buffer, and the hash reader.
\<close>

datatype ioReader = BytesReader reader | FileReader reader | HashReader hashReader



record meteredReader =
  mr_read :: int
  mr_size :: int
  mr_r :: ioReader






definition wb_Write :: "writeBuffer \<Rightarrow> byte list \<Rightarrow> int \<times> error option \<times> writeBuffer" where
  "wb_Write b p =
     (case b of
        MemoryBuffer mb \<Rightarrow> (let (n, e, mb') = mb_Write mb p in (n, e, MemoryBuffer mb'))
      | FileBuffer fb \<Rightarrow> (let (n, e, fb') = fb_Write fb p in (n, e, FileBuffer fb')))"

definition wb_Len :: "writeBuffer \<Rightarrow> int res" where
  "wb_Len b = (case b of MemoryBuffer mb \<Rightarrow> mb_Len mb | FileBuffer fb \<Rightarrow> Ret (fb_Len fb))"

definition wb_Hash :: "hashfn \<Rightarrow> writeBuffer \<Rightarrow> string" where
  "wb_Hash H b = (case b of MemoryBuffer mb \<Rightarrow> mb_Hash H mb | FileBuffer fb \<Rightarrow> fb_Hash H fb)"

definition mb_Reader :: "memoryBuffer \<Rightarrow> (ioReader option \<times> error option) res" where
  "mb_Reader mb =
     (case mb_buf mb of
        None \<Rightarrow> Panic NilDereference
      | Some b \<Rightarrow> Ret (Some (BytesReader (NewReader b)), None))"

definition fb_Reader :: "fileBuffer \<Rightarrow> (ioReader option \<times> error option) res" where
  "fb_Reader fb =
     (if fb_closed fb then Ret (None, Some errClosed)
      else Ret (Some (FileReader (NewReader (fb_f fb))), None))"

definition wb_Reader :: "writeBuffer \<Rightarrow> (ioReader option \<times> error option) res" where
  "wb_Reader b = (case b of MemoryBuffer mb \<Rightarrow> mb_Reader mb | FileBuffer fb \<Rightarrow> fb_Reader fb)"

definition wb_Close :: "writeBuffer \<Rightarrow> error option \<times> writeBuffer" where
  "wb_Close b =
     (case b of
        MemoryBuffer mb \<Rightarrow> (let (e, mb') = mb_Close mb in (e, MemoryBuffer mb'))
      | FileBuffer fb \<Rightarrow> (let (e, fb') = fb_Close fb in (e, FileBuffer fb')))"

section \<open>The backend and the scheduler as seen by the writer\<close>

text \<open>
  The backend (\<open>beBucketInterface\<close>, \<open>beLargeFileInterface\<close>, ...), the file system
  and the Go scheduler are not part of the writer. Each call the writer makes to them
  is recorded in its \<open>trace\<close>, and the answer is the next entry of its \<open>script\<close>.
  A run whose script has no entry left, or an entry of another kind than the call
  expects, has no result (\<open>None\<close>): the model says nothing about it. So every loop of
  the writer that calls the backend is bounded by the script, and a theorem about all
  scripts is a theorem about every behaviour of the backend.

  Endpoints and file handles are opaque numbers. A \<open>Call\<close> event records whether the
  writer's context was already cancelled when the call was made, the call with its
  arguments, and the answer.
\<close>

datatype largeFile = Started nat | Compiled nat int

datatype part = Part (p_number: int) (p_sha1: string) (p_size: int)

datatype call =
    TempFile string
  | GetUploadURL
  | UploadFile nat meteredReader int string string string "(string \<times> string) list"
  | StartLargeFile string string "(string \<times> string) list"
  | GetUploadPartURL largeFile
  | UploadPart nat meteredReader string int int
  | FinishLargeFile largeFile
  | ListFileVersions int string string
  | ListParts nat int int

datatype resp =
    RTempFile "error + nat"
  | RGetUploadURL "error + nat"
  | RUploadFile int "error + nat"
  | RStartLargeFile "error + nat"
  | RGetUploadPartURL "error + nat"
  | RUploadPart int int "error option"
  | RFinishLargeFile "error + nat"
  | RListFileVersions "error + (string \<times> nat) list"
  | RListParts "error + part list \<times> int"
  | RSelect "nat option"

text \<open>
  \<open>RTempFile (Inr room)\<close>: the scratch file was created and accepts \<open>room\<close> bytes.
  \<open>RUploadFile rd r\<close> and \<open>RUploadPart rd n e\<close>: the transport left the metered
  reader's counter at \<open>rd\<close> and returned \<open>r\<close>, respectively \<open>(n, e)\<close>.
  \<open>RSelect\<close> is the scheduler's choice in the \<open>select\<close> of \<open>sendChunk\<close>:
  \<open>Some i\<close> lets the \<open>i\<close>-th waiting worker receive the chunk, \<open>None\<close> takes
  \<open>ctx.Done()\<close>.
\<close>

record chunk =
  c_id :: int
  c_buf :: writeBuffer

datatype event =
    Call bool call resp
  | Sleep int
  | Send chunk
  | BufClose int
  | CompileParts nat int
  | AddWriter
  | RemoveWriter

datatype chan = NilChan | OpenChan | ClosedChan

record world =
  sha1_Sum :: hashfn
  reupload :: "error option \<Rightarrow> bool"

section \<open>writer.go: the Writer\<close>

text \<open>
  The fields of \<open>Writer\<close>. \<open>ctx_done\<close> stands for \<open>ctx\<close> and \<open>cancel\<close>: it is true once
  the context is cancelled. The three \<open>sync.Once\<close> values are the flags
  \<open>start_done\<close>, \<open>once_done\<close> and \<open>done_done\<close>. \<open>threads\<close> holds, for every worker
  goroutine waiting on \<open>ready\<close>, the part-upload endpoint \<open>fc\<close> it owns; the wait
  group counts exactly these. \<open>o_f\<close> is \<open>w.o.f\<close>. \<open>smap\<close> is \<open>None\<close> while the Go map is
  nil; a key bound to \<open>None\<close> is a key bound to a nil \<open>*meteredReader\<close>.
\<close>

record writer =
  ConcurrentUploads :: int
  Resume :: bool
  ChunkSize :: int
  UseFileBuffer :: bool
  FileBufferDir :: string
  contentType :: string
  w_info :: "(string \<times> string) list"
  csize :: int
  ctx_done :: bool
  ready :: chan
  threads :: "nat list"
  start_done :: bool
  once_done :: bool
  done_done :: bool
  w_file :: "largeFile option"
  seen :: "int \<rightharpoonup> string"
  everStarted :: bool
  o_f :: "nat option"
  w_name :: string
  cidx :: int
  w_buf :: "writeBuffer option"
  w_err :: "error option"
  smap :: "(int \<rightharpoonup> meteredReader option) option"
  script :: "resp list"
  trace :: "event list"

text \<open>
  A call of the writer either does not return (\<open>None\<close>), panics, or returns a value
  and the writer after the call.
\<close>

type_synonym 'a outcome = "('a \<times> writer) res option"

definition ret :: "'a \<Rightarrow> writer \<Rightarrow> 'a outcome" where
  "ret a w = Some (Ret (a, w))"

definition andThen :: "'a outcome \<Rightarrow> ('a \<Rightarrow> writer \<Rightarrow> 'b outcome) \<Rightarrow> 'b outcome" where
  "andThen x f =
     (case x of None \<Rightarrow> None | Some (Panic p) \<Rightarrow> Some (Panic p) | Some (Ret (a, w)) \<Rightarrow> f a w)"

definition emit :: "event \<Rightarrow> writer \<Rightarrow> writer" where
  "emit ev w = w\<lparr>trace := trace w @ [ev]\<rparr>"

text \<open>
  \<open>expect sel c\<close> makes the call \<open>c\<close>: it records the call and takes the next entry of
  the script, which \<open>sel\<close> must accept as an answer to this kind of call.
\<close>

definition expect :: "(resp \<Rightarrow> 'a option) \<Rightarrow> call \<Rightarrow> writer \<Rightarrow> 'a outcome" where
  "expect sel c w =
     (case script w of
        [] \<Rightarrow> None
      | r # rs \<Rightarrow>
          (case sel r of
             None \<Rightarrow> None
           | Some x \<Rightarrow> ret x (emit (Call (ctx_done w) c r) (w\<lparr>script := rs\<rparr>))))"

subsection \<open>The backend calls\<close>

definition TempFile_call :: "string \<Rightarrow> writer \<Rightarrow> (error + nat) outcome" where
  "TempFile_call dir =
     expect (\<lambda>r. case r of RTempFile x \<Rightarrow> Some x | _ \<Rightarrow> None) (TempFile dir)"

definition getUploadURL :: "writer \<Rightarrow> (error + nat) outcome" where
  "getUploadURL =
     expect (\<lambda>r. case r of RGetUploadURL x \<Rightarrow> Some x | _ \<Rightarrow> None) GetUploadURL"

definition uploadFile ::
  "nat \<Rightarrow> meteredReader \<Rightarrow> int \<Rightarrow> string \<Rightarrow> string \<Rightarrow> string \<Rightarrow> (string \<times> string) list \<Rightarrow>
   writer \<Rightarrow> (int \<times> (error + nat)) outcome" where
  "uploadFile ue mr n name ctype sha meta =
     expect (\<lambda>r. case r of RUploadFile rd x \<Rightarrow> Some (rd, x) | _ \<Rightarrow> None)
       (UploadFile ue mr n name ctype sha meta)"

definition startLargeFile ::
  "string \<Rightarrow> string \<Rightarrow> (string \<times> string) list \<Rightarrow> writer \<Rightarrow> (error + nat) outcome" where
  "startLargeFile name ctype meta =
     expect (\<lambda>r. case r of RStartLargeFile x \<Rightarrow> Some x | _ \<Rightarrow> None)
       (StartLargeFile name ctype meta)"

definition getUploadPartURL :: "largeFile \<Rightarrow> writer \<Rightarrow> (error + nat) outcome" where
  "getUploadPartURL lf =
     expect (\<lambda>r. case r of RGetUploadPartURL x \<Rightarrow> Some x | _ \<Rightarrow> None) (GetUploadPartURL lf)"

definition uploadPart ::
  "nat \<Rightarrow> meteredReader \<Rightarrow> string \<Rightarrow> int \<Rightarrow> int \<Rightarrow> writer \<Rightarrow> (int \<times> int \<times> error option) outcome" where
  "uploadPart fc mr sha n idx =
     expect (\<lambda>r. case r of RUploadPart rd k e \<Rightarrow> Some (rd, k, e) | _ \<Rightarrow> None)
       (UploadPart fc mr sha n idx)"

definition finishLargeFile :: "largeFile \<Rightarrow> writer \<Rightarrow> (error + nat) outcome" where
  "finishLargeFile lf =
     expect (\<lambda>r. case r of RFinishLargeFile x \<Rightarrow> Some x | _ \<Rightarrow> None) (FinishLargeFile lf)"

definition listFileVersions ::
  "int \<Rightarrow> string \<Rightarrow> string \<Rightarrow> writer \<Rightarrow> (error + (string \<times> nat) list) outcome" where
  "listFileVersions count' name' id' =
     expect (\<lambda>r. case r of RListFileVersions x \<Rightarrow> Some x | _ \<Rightarrow> None)
       (ListFileVersions count' name' id')"

definition listParts :: "nat \<Rightarrow> int \<Rightarrow> int \<Rightarrow> writer \<Rightarrow> (error + part list \<times> int) outcome" where
  "listParts fi next' n =
     expect (\<lambda>r. case r of RListParts x \<Rightarrow> Some x | _ \<Rightarrow> None) (ListParts fi next' n)"

text \<open>\<open>Bucket.ListObjects\<close> (b2.go) with a non-nil cursor whose id is empty.\<close>

definition ListObjects ::
  "int \<Rightarrow> string \<Rightarrow> writer \<Rightarrow> ((string \<times> nat) list \<times> error option) outcome" where
  "ListObjects count' cname w =
     andThen (listFileVersions count' cname [] w)
       (\<lambda>r w. case r of Inl e \<Rightarrow> ret ([], Some e) w | Inr fs \<Rightarrow> ret (fs, None) w)"

subsection \<open>Buffers, the error latch and the progress map\<close>

definition newFileBuffer :: "string \<Rightarrow> writer \<Rightarrow> (writeBuffer option \<times> error option) outcome" where
  "newFileBuffer loc w =
     andThen (TempFile_call loc w)
       (\<lambda>r w. case r of
                 Inl e \<Rightarrow> ret (None, Some e) w
               | Inr room \<Rightarrow>
                   ret (Some (FileBuffer \<lparr>fb_f = [], fb_hsh = [], fb_s = 0, fb_room = room,
                                           fb_closed = False\<rparr>), None) w)"

definition getBuffer :: "writer \<Rightarrow> (writeBuffer option \<times> error option) outcome" where
  "getBuffer w =
     (if \<not> UseFileBuffer w then ret (Some (MemoryBuffer newMemoryBuffer), None) w
      else newFileBuffer (FileBufferDir w) w)"

definition setErr :: "error option \<Rightarrow> writer \<Rightarrow> writer" where
  "setErr e w =
     (case e of
        None \<Rightarrow> w
      | Some x \<Rightarrow> if w_err w = None then w\<lparr>w_err := Some x, ctx_done := True\<rparr> else w)"

definition getErr :: "writer \<Rightarrow> error option" where
  "getErr w = w_err w"

definition registerChunk :: "int \<Rightarrow> meteredReader \<Rightarrow> writer \<Rightarrow> unit outcome" where
  "registerChunk i r w =
     (case smap w of
        None \<Rightarrow> Some (Panic NilMap)
      | Some m \<Rightarrow> ret () (w\<lparr>smap := Some (m(i \<mapsto> Some r))\<rparr>))"

definition completeChunk :: "int \<Rightarrow> writer \<Rightarrow> unit outcome" where
  "completeChunk i w =
     (case smap w of
        None \<Rightarrow> Some (Panic NilMap)
      | Some m \<Rightarrow> ret () (w\<lparr>smap := Some (m(i \<mapsto> None))\<rparr>))"

text \<open>
  The transport reads through the pointer that \<open>registerChunk\<close> stored, so the counter
  it leaves is also the counter \<open>status\<close> sees.
\<close>

definition transported :: "int \<Rightarrow> int \<Rightarrow> writer \<Rightarrow> writer" where
  "transported i rd w =
     (case smap w of
        None \<Rightarrow> w
      | Some m \<Rightarrow>
          (case m i of
             Some (Some mr) \<Rightarrow> w\<lparr>smap := Some (m(i \<mapsto> Some (mr\<lparr>mr_read := rd\<rparr>)))\<rparr>
           | _ \<Rightarrow> w))"

subsection \<open>Termination of the loops that call the backend\<close>

lemma andThen_cong [fundef_cong]:
  "x = y \<Longrightarrow> (\<And>a w. y = Some (Ret (a, w)) \<Longrightarrow> f a w = g a w) \<Longrightarrow> andThen x f = andThen y g"
  by (auto simp: andThen_def split: option.splits res.splits)

lemma andThen_Ret:
  "andThen x f = Some (Ret (b, w'')) \<longleftrightarrow> (\<exists>a w'. x = Some (Ret (a, w')) \<and> f a w' = Some (Ret (b, w'')))"
  by (auto simp: andThen_def split: option.splits res.splits)

lemma andThenE:
  assumes "andThen x f = Some (Ret (b, w''))"
  obtains a w' where "x = Some (Ret (a, w'))" and "f a w' = Some (Ret (b, w''))"
  using assms unfolding andThen_Ret by blast

lemma ret_Ret [simp]: "ret a w = Some (Ret (b, w')) \<longleftrightarrow> a = b \<and> w = w'"
  by (auto simp: ret_def)

lemma ret_neq [simp]: "ret a w \<noteq> None" "ret a w \<noteq> Some (Panic p)"
  by (simp_all add: ret_def)

lemma expect_Ret:
  "expect sel c w = Some (Ret (x, w')) \<longleftrightarrow>
     (\<exists>r rs. script w = r # rs \<and> sel r = Some x \<and>
              w' = emit (Call (ctx_done w) c r) (w\<lparr>script := rs\<rparr>))"
  by (auto simp: expect_def ret_def split: list.splits option.splits)

lemma expect_script:
  "expect sel c w = Some (Ret (x, w')) \<Longrightarrow> length (script w') < length (script w)"
  by (auto simp: expect_Ret emit_def)

lemmas backend_defs =
  TempFile_call_def getUploadURL_def uploadFile_def startLargeFile_def getUploadPartURL_def
  uploadPart_def finishLargeFile_def listFileVersions_def listParts_def

lemma uploadPart_script:
  "uploadPart fc mr sha n idx w = Some (Ret (r, w')) \<Longrightarrow> length (script w') < length (script w)"
  unfolding uploadPart_def by (rule expect_script)

lemma getUploadPartURL_script:
  "getUploadPartURL lf w = Some (Ret (r, w')) \<Longrightarrow> length (script w') < length (script w)"
  unfolding getUploadPartURL_def by (rule expect_script)

lemma getUploadURL_script:
  "getUploadURL w = Some (Ret (r, w')) \<Longrightarrow> length (script w') < length (script w)"
  unfolding getUploadURL_def by (rule expect_script)

lemma uploadFile_script:
  "uploadFile ue mr n name ctype sha meta w = Some (Ret (r, w')) \<Longrightarrow>
     length (script w') < length (script w)"
  unfolding uploadFile_def by (rule expect_script)

lemma ListObjects_script:
  "ListObjects c n w = Some (Ret (r, w')) \<Longrightarrow> length (script w') < length (script w)"
proof -
  assume "ListObjects c n w = Some (Ret (r, w'))"
  then obtain a w1 where e: "listFileVersions c n [] w = Some (Ret (a, w1))"
    and f: "(case a of Inl e \<Rightarrow> ret ([], Some e) w1 | Inr fs \<Rightarrow> ret (fs, None) w1) = Some (Ret (r, w'))"
    unfolding ListObjects_def andThen_Ret by blast
  from f have "w' = w1" by (cases a) (simp_all add: ret_def)
  with e show ?thesis unfolding listFileVersions_def by (auto dest: expect_script)
qed

lemma listParts_script:
  "listParts fi nx n w = Some (Ret (r, w')) \<Longrightarrow> length (script w') < length (script w)"
  unfolding listParts_def by (rule expect_script)

lemma script_emit [simp]: "script (emit ev w) = script w"
  by (simp add: emit_def)

lemma script_setErr [simp]: "script (setErr e w) = script w"
  by (simp add: setErr_def split: option.splits)

lemma script_transported [simp]: "script (transported i rd w) = script w"
  by (simp add: transported_def split: option.splits)

lemma completeChunk_script:
  "completeChunk i w = Some (Ret (r, w')) \<Longrightarrow> script w' = script w"
  by (auto simp: completeChunk_def ret_def split: option.splits)

lemma registerChunk_script:
  "registerChunk i mr w = Some (Ret (r, w')) \<Longrightarrow> script w' = script w"
  by (auto simp: registerChunk_def ret_def split: option.splits)

subsection \<open>The worker goroutine\<close>

definition errChunksDontMatch :: error where
  "errChunksDontMatch =
     ErrorString (''resumable upload was requested, but chunks don'' @ [CHR 0x27] @ ''t match!'')"

definition millisecond :: int where "millisecond = 1000000"
definition second :: int where "second = 1000000000"

text \<open>
  The worker's work on a received chunk ends in one of two ways: \<open>Some fc\<close>, the
  goroutine goes back to \<open><-w.ready\<close> owning the endpoint \<open>fc\<close>; or \<open>None\<close>, the
  goroutine has returned. \<open>finishChunk\<close> is \<open>w.completeChunk(chunk.id)\<close> followed by
  \<open>chunk.buf.Close()\<close>, whose error is dropped.
\<close>

definition finishChunk :: "chunk \<Rightarrow> writer \<Rightarrow> unit outcome" where
  "finishChunk c w = andThen (completeChunk (c_id c) w) (\<lambda>_ w. ret () (emit (BufClose (c_id c)) w))"

definition refreshPartURL :: "writer \<Rightarrow> (error + nat) outcome" where
  "refreshPartURL w =
     (case w_file w of None \<Rightarrow> Some (Panic NilDereference) | Some lf \<Rightarrow> getUploadPartURL lf w)"

function redo ::
  "world \<Rightarrow> chunk \<Rightarrow> meteredReader \<Rightarrow> nat \<Rightarrow> int \<Rightarrow> writer \<Rightarrow> nat option outcome" where
  "redo W c mr fc sleep w =
     (case wb_Len (c_buf c) of
        Panic x \<Rightarrow> Some (Panic x)
      | Ret len \<Rightarrow>
          andThen (uploadPart fc mr (wb_Hash (sha1_Sum W) (c_buf c)) len (c_id c) w)
            (\<lambda>r w. case r of (rd, n, e) \<Rightarrow>
               let w = transported (c_id c) rd w; mr = mr\<lparr>mr_read := rd\<rparr> in
               if n \<noteq> len \<or> e \<noteq> None then
                 if reupload W e then
                   (let w = emit (Sleep sleep) w;
                        sleep = sleep * 2;
                        sleep = (if sleep > second * 15 then second * 15 else sleep)
                    in andThen (refreshPartURL w)
                         (\<lambda>r w. case r of
                                   Inl x \<Rightarrow>
                                     andThen (finishChunk c (setErr (Some x) w)) (\<lambda>_ w. ret None w)
                                 | Inr f \<Rightarrow> redo W c mr f sleep w))
                 else andThen (finishChunk c (setErr e w)) (\<lambda>_ w. ret None w)
               else andThen (finishChunk c w) (\<lambda>_ w. ret (Some fc) w)))"
  by pat_completeness auto
termination
  apply (relation "measure (\<lambda>(W, c, mr, fc, sleep, w). length (script w))")
   apply simp
  apply (auto simp: refreshPartURL_def dest!: uploadPart_script getUploadPartURL_script
              split: option.splits)
  done

declare redo.simps [simp del]


definition thread_chunk :: "world \<Rightarrow> nat \<Rightarrow> chunk \<Rightarrow> writer \<Rightarrow> nat option outcome" where
  "thread_chunk W fc c w =
     (case seen w (c_id c) of
        Some sha \<Rightarrow>
          if sha \<noteq> wb_Hash (sha1_Sum W) (c_buf c)
          then ret None (setErr (Some errChunksDontMatch) w)
          else andThen (completeChunk (c_id c) (emit (BufClose (c_id c)) w)) (\<lambda>_ w. ret (Some fc) w)
      | None \<Rightarrow>
          (case wb_Reader (c_buf c) of
             Panic x \<Rightarrow> Some (Panic x)
           | Ret (r, e) \<Rightarrow>
               (case e of
                  Some x \<Rightarrow> ret None (setErr (Some x) w)
                | None \<Rightarrow>
                    (case r of
                       None \<Rightarrow> Some (Panic NilDereference)
                     | Some rd \<Rightarrow>
                         (case wb_Len (c_buf c) of
                            Panic x \<Rightarrow> Some (Panic x)
                          | Ret len \<Rightarrow>
                              (let mr = \<lparr>mr_read = 0, mr_size = len, mr_r = rd\<rparr>
                               in andThen (registerChunk (c_id c) mr w)
                                    (\<lambda>_ w. redo W c mr fc (millisecond * 15) w)))))))"

text \<open>
  \<open>thread\<close> starts a worker. The goroutine's first step, obtaining its endpoint, is
  taken at once; a worker that got its endpoint then waits on \<open>ready\<close>.
\<close>

definition thread :: "writer \<Rightarrow> unit outcome" where
  "thread w =
     andThen (refreshPartURL w)
       (\<lambda>r w. case r of
                 Inl e \<Rightarrow> ret () (setErr (Some e) w)
               | Inr fc \<Rightarrow> ret () (w\<lparr>threads := threads w @ [fc]\<rparr>))"

fun threads_loop :: "nat \<Rightarrow> writer \<Rightarrow> unit outcome" where
  "threads_loop 0 w = ret () w"
| "threads_loop (Suc n) w = andThen (thread w) (\<lambda>_ w. threads_loop n w)"

text \<open>
  The rendezvous on \<open>ready\<close>: the worker chosen by the scheduler receives the chunk
  and works on it until it waits on \<open>ready\<close> again or returns, before the writer
  goes on. This is the schedule in which the sender is not resumed before the
  receiver has finished its chunk; what a worker does to one chunk does not depend
  on the schedule.
\<close>

definition receive :: "world \<Rightarrow> nat \<Rightarrow> chunk \<Rightarrow> writer \<Rightarrow> unit outcome" where
  "receive W i c w =
     andThen (thread_chunk W (threads w ! i) c w)
       (\<lambda>r w. case r of
                 None \<Rightarrow> ret () (w\<lparr>threads := take i (threads w) @ drop (Suc i) (threads w)\<rparr>)
               | Some fc \<Rightarrow> ret () (w\<lparr>threads := (threads w)[i := fc]\<rparr>))"

subsection \<open>Promotion to a large file\<close>

definition default_ctype :: "string \<Rightarrow> string" where
  "default_ctype ctype = (if ctype = [] then ''application/octet-stream'' else ctype)"

definition getLargeFile_start :: "writer \<Rightarrow> (largeFile option \<times> error option) outcome" where
  "getLargeFile_start w =
     andThen (startLargeFile (w_name w) (default_ctype (contentType w)) (w_info w) w)
       (\<lambda>r w. case r of Inl e \<Rightarrow> ret (None, Some e) w | Inr h \<Rightarrow> ret (Some (Started h), None) w)"

text \<open>
  The \<open>for\<close> loop of \<open>getLargeFile\<close>. It ends with an error, with \<open>None\<close> when no
  unfinished file of this name is listed, or with the handle, the parts seen and
  their total size.
\<close>

function getLargeFile_loop ::
  "int \<Rightarrow> (int \<rightharpoonup> string) \<Rightarrow> int \<Rightarrow> writer \<Rightarrow>
   ((nat \<times> (int \<rightharpoonup> string) \<times> int) option \<times> error option) outcome" where
  "getLargeFile_loop next' seen' size' w =
     andThen (ListObjects 1 (w_name w) w)
       (\<lambda>r w. case r of (objs, e) \<Rightarrow>
          (case e of
             Some x \<Rightarrow> ret (None, Some x) w
           | None \<Rightarrow>
               if length objs < 1 \<or> fst (hd objs) \<noteq> w_name w then ret (None, None) w
               else
                 (let fi = snd (hd objs)
                  in andThen (listParts fi next' 100 w)
                       (\<lambda>r w. case r of
                          Inl x \<Rightarrow> ret (None, Some x) w
                        | Inr (parts, n) \<Rightarrow>
                            (let seen' = fold (\<lambda>p m. m(p_number p \<mapsto> p_sha1 p)) parts seen';
                                 size' = size' + sum_list (map p_size parts)
                             in if length parts = 0 then ret (Some (fi, seen', size'), None) w
                                else if n = 0 then ret (Some (fi, seen', size'), None) w
                                else getLargeFile_loop n seen' size' w)))))"
  by pat_completeness auto
termination
  apply (relation "measure (\<lambda>(n, s, z, w). length (script w))")
   apply simp
  apply (auto dest!: ListObjects_script listParts_script)
  done

declare getLargeFile_loop.simps [simp del]

definition getLargeFile :: "writer \<Rightarrow> (largeFile option \<times> error option) outcome" where
  "getLargeFile w =
     (if \<not> Resume w then getLargeFile_start w
      else
        andThen (getLargeFile_loop 1 Map.empty 0 w)
          (\<lambda>r w. case r of (found, e) \<Rightarrow>
             (case e of
                Some x \<Rightarrow> ret (None, Some x) w
              | None \<Rightarrow>
                  (case found of
                     None \<Rightarrow> getLargeFile_start (w\<lparr>Resume := False\<rparr>)
                   | Some (fi, seen', size') \<Rightarrow>
                       ret (Some (Compiled fi size'), None)
                         (emit (CompileParts fi size') (w\<lparr>seen := seen'\<rparr>))))))"

subsection \<open>sendChunk\<close>

text \<open>
  The \<open>select\<close> of \<open>sendChunk\<close>. The send can proceed when \<open>ready\<close> is open and the
  chosen worker waits on it; a send on a closed channel panics; a nil channel never
  proceeds. The other case can proceed when the context is done. A choice that
  cannot proceed is not a choice of the scheduler.
\<close>

definition select :: "writer \<Rightarrow> nat option outcome" where
  "select w =
     (case script w of
        RSelect ch # rs \<Rightarrow>
          (case ch of
             None \<Rightarrow> if ctx_done w then ret None (w\<lparr>script := rs\<rparr>) else None
           | Some i \<Rightarrow>
               (case ready w of
                  NilChan \<Rightarrow> None
                | ClosedChan \<Rightarrow> Some (Panic ClosedChannel)
                | OpenChan \<Rightarrow> if i < length (threads w) then ret (Some i) (w\<lparr>script := rs\<rparr>) else None))
      | _ \<Rightarrow> None)"

definition sendChunk_once :: "writer \<Rightarrow> error option outcome" where
  "sendChunk_once w =
     andThen (getLargeFile w)
       (\<lambda>r w. case r of (lf, e) \<Rightarrow>
          (case e of
             Some x \<Rightarrow> ret (Some x) w
           | None \<Rightarrow>
               (let w = w\<lparr>w_file := lf, ready := OpenChan\<rparr>;
                    w = (if ConcurrentUploads w < 1 then w\<lparr>ConcurrentUploads := 1\<rparr> else w)
                in andThen (threads_loop (nat (ConcurrentUploads w)) w) (\<lambda>_ w. ret None w))))"

definition sendChunk :: "world \<Rightarrow> writer \<Rightarrow> error option outcome" where
  "sendChunk W w =
     andThen (if once_done w then ret None w else sendChunk_once (w\<lparr>once_done := True\<rparr>))
       (\<lambda>e w. case e of
          Some x \<Rightarrow> ret (Some x) w
        | None \<Rightarrow>
            andThen (select w)
              (\<lambda>ch w. case ch of
                 None \<Rightarrow> ret (Some Canceled) w
               | Some i \<Rightarrow>
                   (case w_buf w of
                      None \<Rightarrow> Some (Panic NilDereference)
                    | Some b \<Rightarrow>
                        andThen (receive W i \<lparr>c_id = cidx w + 1, c_buf = b\<rparr>
                                   (emit (Send \<lparr>c_id = cidx w + 1, c_buf = b\<rparr>) w))
                          (\<lambda>_ w. andThen (getBuffer (w\<lparr>cidx := cidx w + 1\<rparr>))
                             (\<lambda>r w. case r of (v, e) \<Rightarrow>
                                (case e of
                                   Some x \<Rightarrow> ret (Some x) w
                                 | None \<Rightarrow> ret None (w\<lparr>w_buf := v\<rparr>)))))))"

subsection \<open>init and Write\<close>

definition init :: "writer \<Rightarrow> unit outcome" where
  "init w =
     (if start_done w then ret () w
      else
        (let w = w\<lparr>start_done := True, everStarted := True, smap := Some Map.empty\<rparr>;
             w = emit AddWriter w;
             w = w\<lparr>csize := ChunkSize w\<rparr>;
             w = (if csize w = 0 then w\<lparr>csize := 100000000\<rparr> else w)
         in andThen (getBuffer w)
              (\<lambda>r w. case r of (v, e) \<Rightarrow>
                 (case e of
                    Some x \<Rightarrow> ret () (setErr (Some x) w)
                  | None \<Rightarrow> ret () (w\<lparr>w_buf := v\<rparr>)))))"

definition post :: "'a outcome \<Rightarrow> ('a \<Rightarrow> writer \<Rightarrow> bool) \<Rightarrow> bool" where
  "post X Q \<longleftrightarrow> (\<forall>r w'. X = Some (Ret (r, w')) \<longrightarrow> Q r w')"

definition trace_ext :: "(event \<Rightarrow> bool) \<Rightarrow> writer \<Rightarrow> writer \<Rightarrow> bool" where
  "trace_ext P w w' \<longleftrightarrow> (\<exists>evs. trace w' = trace w @ evs \<and> list_all P evs)"

definition latched :: "writer \<Rightarrow> writer \<Rightarrow> bool" where
  "latched w w' \<longleftrightarrow>
     length (script w') \<le> length (script w) \<and>
     (w_err w \<noteq> None \<longrightarrow> w_err w' = w_err w) \<and>
     (ctx_done w \<longrightarrow> ctx_done w') \<and>
     ((w_err w \<noteq> None \<longrightarrow> ctx_done w) \<longrightarrow> (w_err w' \<noteq> None \<longrightarrow> ctx_done w')) \<and>
     (smap w \<noteq> None \<longrightarrow> smap w' \<noteq> None)"

definition owned :: "writer \<Rightarrow> writer \<Rightarrow> bool" where
  "owned w w' \<longleftrightarrow>
     csize w' = csize w \<and> cidx w' = cidx w \<and> w_buf w' = w_buf w \<and>
     start_done w' = start_done w \<and> everStarted w' = everStarted w \<and>
     done_done w' = done_done w \<and> o_f w' = o_f w \<and>
     ChunkSize w' = ChunkSize w \<and> UseFileBuffer w' = UseFileBuffer w \<and>
     FileBufferDir w' = FileBufferDir w \<and> contentType w' = contentType w \<and>
     w_info w' = w_info w \<and> w_name w' = w_name w"

definition wstep :: "(event \<Rightarrow> bool) \<Rightarrow> writer \<Rightarrow> writer \<Rightarrow> bool" where
  "wstep P w w' \<longleftrightarrow> trace_ext P w w' \<and> latched w w' \<and> owned w w'"

definition wkeep :: "writer \<Rightarrow> writer \<Rightarrow> bool" where
  "wkeep w w' \<longleftrightarrow>
     seen w' = seen w \<and> w_file w' = w_file w \<and> ready w' = ready w \<and>
     once_done w' = once_done w \<and> Resume w' = Resume w \<and>
     ConcurrentUploads w' = ConcurrentUploads w"

lemma postI: "(\<And>r w'. X = Some (Ret (r, w')) \<Longrightarrow> Q r w') \<Longrightarrow> post X Q"
  by (simp add: post_def)

lemma postD: "post X Q \<Longrightarrow> X = Some (Ret (r, w')) \<Longrightarrow> Q r w'"
  by (simp add: post_def)

lemma post_ret: "Q a w \<Longrightarrow> post (ret a w) Q"
  by (simp add: post_def)

lemma post_None [simp]: "post None Q"
  by (simp add: post_def)

lemma post_Panic [simp]: "post (Some (Panic p)) Q"
  by (simp add: post_def)

lemma post_seq:
  "post X (\<lambda>a w1. R w0 w1) \<Longrightarrow>
   (\<And>a w1. R w0 w1 \<Longrightarrow> X = Some (Ret (a, w1)) \<Longrightarrow> post (k a w1) Q) \<Longrightarrow>
   post (andThen X k) Q"
  unfolding post_def andThen_Ret by blast

lemma post_weaken: "post X Q \<Longrightarrow> (\<And>r w'. Q r w' \<Longrightarrow> Q' r w') \<Longrightarrow> post X Q'"
  unfolding post_def by blast

lemma trace_ext_refl: "trace_ext P w w"
  unfolding trace_ext_def by (rule exI [of _ "[]"]) simp

lemma trace_ext_trans: "trace_ext P a b \<Longrightarrow> trace_ext P b c \<Longrightarrow> trace_ext P a c"
  unfolding trace_ext_def
proof (elim exE conjE)
  fix e1 e2
  assume "trace b = trace a @ e1" "list_all P e1" "trace c = trace b @ e2" "list_all P e2"
  then show "\<exists>evs. trace c = trace a @ evs \<and> list_all P evs"
    by (intro exI [of _ "e1 @ e2"]) simp
qed

lemma latched_refl: "latched w w"
  by (simp add: latched_def)

lemma latched_trans: "latched a b \<Longrightarrow> latched b c \<Longrightarrow> latched a c"
  unfolding latched_def by (elim conjE, intro conjI) (linarith, simp_all)

lemma owned_refl: "owned w w"
  by (simp add: owned_def)

lemma owned_trans: "owned a b \<Longrightarrow> owned b c \<Longrightarrow> owned a c"
  by (simp add: owned_def)

lemma wstep_refl: "wstep P w w"
  by (simp add: wstep_def trace_ext_refl latched_refl owned_refl)

lemma wstep_trans: "wstep P a b \<Longrightarrow> wstep P b c \<Longrightarrow> wstep P a c"
  unfolding wstep_def by (blast intro: trace_ext_trans latched_trans owned_trans)

lemma wkeep_refl: "wkeep w w"
  by (simp add: wkeep_def)

lemma wkeep_trans: "wkeep a b \<Longrightarrow> wkeep b c \<Longrightarrow> wkeep a c"
  by (simp add: wkeep_def)


lemma wstep_emit1: "P ev \<Longrightarrow> wstep P w (emit ev w)"
  unfolding wstep_def
proof (intro conjI)
  assume "P ev"
  then show "trace_ext P w (emit ev w)"
    unfolding trace_ext_def by (intro exI [of _ "[ev]"]) (simp add: emit_def)
  show "latched w (emit ev w)" by (simp add: latched_def emit_def)
  show "owned w (emit ev w)" by (simp add: owned_def emit_def)
qed

lemma wstep_setErr1: "wstep P w (setErr e w)"
  unfolding wstep_def
proof (intro conjI)
  show "trace_ext P w (setErr e w)"
    unfolding trace_ext_def by (intro exI [of _ "[]"]) (simp add: setErr_def split: option.splits)
  show "latched w (setErr e w)" by (simp add: latched_def setErr_def split: option.splits)
  show "owned w (setErr e w)" by (simp add: owned_def setErr_def split: option.splits)
qed

lemma wstep_transported1: "wstep P w (transported i rd w)"
  unfolding wstep_def
proof (intro conjI)
  show "trace_ext P w (transported i rd w)"
    unfolding trace_ext_def by (intro exI [of _ "[]"]) (simp add: transported_def split: option.splits)
  show "latched w (transported i rd w)" by (simp add: latched_def transported_def split: option.splits)
  show "owned w (transported i rd w)" by (simp add: owned_def transported_def split: option.splits)
qed

lemma wstep_threads1: "wstep P w (w\<lparr>threads := t\<rparr>)"
  unfolding wstep_def
proof (intro conjI)
  show "trace_ext P w (w\<lparr>threads := t\<rparr>)"
    unfolding trace_ext_def by (intro exI [of _ "[]"]) simp
  show "latched w (w\<lparr>threads := t\<rparr>)" by (simp add: latched_def)
  show "owned w (w\<lparr>threads := t\<rparr>)" by (simp add: owned_def)
qed

lemma wstep_smap1: "wstep P w (w\<lparr>smap := Some m\<rparr>)"
  unfolding wstep_def
proof (intro conjI)
  show "trace_ext P w (w\<lparr>smap := Some m\<rparr>)"
    unfolding trace_ext_def by (intro exI [of _ "[]"]) simp
  show "latched w (w\<lparr>smap := Some m\<rparr>)" by (simp add: latched_def)
  show "owned w (w\<lparr>smap := Some m\<rparr>)" by (simp add: owned_def)
qed

lemma wstep_pop1: "script w = r # rs \<Longrightarrow> wstep P w (w\<lparr>script := rs\<rparr>)"
  unfolding wstep_def
proof (intro conjI)
  show "trace_ext P w (w\<lparr>script := rs\<rparr>)"
    unfolding trace_ext_def by (intro exI [of _ "[]"]) simp
  show "script w = r # rs \<Longrightarrow> latched w (w\<lparr>script := rs\<rparr>)" by (simp add: latched_def)
  show "owned w (w\<lparr>script := rs\<rparr>)" by (simp add: owned_def)
qed

text \<open>The steps a call is made of, each extending a relation that holds so far.\<close>

lemma wstep_emit: "wstep P w0 w \<Longrightarrow> P ev \<Longrightarrow> wstep P w0 (emit ev w)"
  by (erule wstep_trans) (rule wstep_emit1)

lemma wstep_setErr: "wstep P w0 w \<Longrightarrow> wstep P w0 (setErr e w)"
  by (erule wstep_trans) (rule wstep_setErr1)

lemma wstep_transported: "wstep P w0 w \<Longrightarrow> wstep P w0 (transported i rd w)"
  by (erule wstep_trans) (rule wstep_transported1)

lemma wstep_threads: "wstep P w0 w \<Longrightarrow> wstep P w0 (w\<lparr>threads := t\<rparr>)"
  by (erule wstep_trans) (rule wstep_threads1)

lemma wstep_expect:
  assumes "wstep P w0 w" "\<And>r. P (Call (ctx_done w) c r)"
  shows "post (expect sel c w) (\<lambda>r w'. wstep P w0 w')"
proof (rule postI)
  fix x w'
  assume "expect sel c w = Some (Ret (x, w'))"
  then obtain r rs where s: "script w = r # rs"
    and w': "w' = emit (Call (ctx_done w) c r) (w\<lparr>script := rs\<rparr>)"
    unfolding expect_Ret by blast
  have "wstep P w0 (w\<lparr>script := rs\<rparr>)"
    by (rule wstep_trans [OF assms(1) wstep_pop1 [OF s]])
  then show "wstep P w0 w'" unfolding w' using assms(2) [of r] by (rule wstep_emit)
qed

lemma wstep_completeChunk:
  assumes "wstep P w0 w"
  shows "post (completeChunk j w) (\<lambda>r w'. wstep P w0 w')"
proof (rule postI)
  fix x w'
  assume "completeChunk j w = Some (Ret (x, w'))"
  then obtain m where "w' = w\<lparr>smap := Some m\<rparr>"
    by (auto simp: completeChunk_def split: option.split_asm)
  then show "wstep P w0 w'" using wstep_trans [OF assms wstep_smap1] by simp
qed

lemma wstep_registerChunk:
  assumes "wstep P w0 w"
  shows "post (registerChunk j mr w) (\<lambda>r w'. wstep P w0 w')"
proof (rule postI)
  fix x w'
  assume "registerChunk j mr w = Some (Ret (x, w'))"
  then obtain m where "w' = w\<lparr>smap := Some m\<rparr>"
    by (auto simp: registerChunk_def split: option.split_asm)
  then show "wstep P w0 w'" using wstep_trans [OF assms wstep_smap1] by simp
qed

lemma wkeep_emit: "wkeep w0 w \<Longrightarrow> wkeep w0 (emit ev w)"
  by (simp add: wkeep_def emit_def)

lemma wkeep_setErr: "wkeep w0 w \<Longrightarrow> wkeep w0 (setErr e w)"
  by (simp add: wkeep_def setErr_def split: option.splits)

lemma wkeep_transported: "wkeep w0 w \<Longrightarrow> wkeep w0 (transported i rd w)"
  by (simp add: wkeep_def transported_def split: option.splits)

lemma wkeep_threads: "wkeep w0 w \<Longrightarrow> wkeep w0 (w\<lparr>threads := t\<rparr>)"
  by (simp add: wkeep_def)

lemma wkeep_expect: "wkeep w0 w \<Longrightarrow> post (expect sel c w) (\<lambda>r w'. wkeep w0 w')"
  by (rule postI) (auto simp: expect_Ret wkeep_def emit_def)

lemma wkeep_completeChunk: "wkeep w0 w \<Longrightarrow> post (completeChunk j w) (\<lambda>r w'. wkeep w0 w')"
  by (rule postI) (auto simp: completeChunk_def wkeep_def split: option.split_asm)

lemma wkeep_registerChunk: "wkeep w0 w \<Longrightarrow> post (registerChunk j mr w) (\<lambda>r w'. wkeep w0 w')"
  by (rule postI) (auto simp: registerChunk_def wkeep_def split: option.split_asm)

lemmas wstep_pure = wstep_emit wstep_setErr wstep_transported wstep_threads
lemmas wkeep_pure = wkeep_emit wkeep_setErr wkeep_transported wkeep_threads

definition worker_event :: "int \<Rightarrow> event \<Rightarrow> bool" where
  "worker_event i ev =
     (case ev of
        Call d c r \<Rightarrow> (case c of UploadPart fc mr sha n idx \<Rightarrow> idx = i
                              | GetUploadPartURL lf \<Rightarrow> True
                              | _ \<Rightarrow> False)
      | Sleep t \<Rightarrow> True
      | BufClose j \<Rightarrow> j = i
      | _ \<Rightarrow> False)"

lemma worker_event_simps [simp]:
  "worker_event i (Call d (UploadPart fc mr sha n idx) r) \<longleftrightarrow> idx = i"
  "worker_event i (Call d (GetUploadPartURL lf) r)"
  "worker_event i (Sleep t)"
  "worker_event i (BufClose j) \<longleftrightarrow> j = i"
  by (simp_all add: worker_event_def)

text \<open>\<open>wwork i\<close>: what a worker may do to the writer while it handles chunk \<open>i\<close>.\<close>

definition wwork :: "int \<Rightarrow> writer \<Rightarrow> writer \<Rightarrow> bool" where
  "wwork i w w' \<longleftrightarrow> wstep (worker_event i) w w' \<and> wkeep w w'"

lemma post_conj: "post X Q1 \<Longrightarrow> post X Q2 \<Longrightarrow> post X (\<lambda>r w. Q1 r w \<and> Q2 r w)"
  unfolding post_def by blast

lemma wwork_refl: "wwork i w w"
  by (simp add: wwork_def wstep_refl wkeep_refl)

lemma wwork_trans: "wwork i a b \<Longrightarrow> wwork i b c \<Longrightarrow> wwork i a c"
  unfolding wwork_def by (blast intro: wstep_trans wkeep_trans)

lemma wwork_emit: "wwork i w0 w \<Longrightarrow> worker_event i ev \<Longrightarrow> wwork i w0 (emit ev w)"
  unfolding wwork_def by (blast intro: wstep_emit wkeep_emit)

lemma wwork_setErr: "wwork i w0 w \<Longrightarrow> wwork i w0 (setErr e w)"
  unfolding wwork_def by (blast intro: wstep_setErr wkeep_setErr)

lemma wwork_transported: "wwork i w0 w \<Longrightarrow> wwork i w0 (transported j rd w)"
  unfolding wwork_def by (blast intro: wstep_transported wkeep_transported)

lemma wwork_threads: "wwork i w0 w \<Longrightarrow> wwork i w0 (w\<lparr>threads := t\<rparr>)"
  unfolding wwork_def by (blast intro: wstep_threads wkeep_threads)

lemma wwork_expect:
  "wwork i w0 w \<Longrightarrow> (\<And>r. worker_event i (Call (ctx_done w) c r)) \<Longrightarrow>
   post (expect sel c w) (\<lambda>r w'. wwork i w0 w')"
  unfolding wwork_def by (intro post_conj wstep_expect wkeep_expect) simp_all

lemma wwork_completeChunk: "wwork i w0 w \<Longrightarrow> post (completeChunk j w) (\<lambda>r w'. wwork i w0 w')"
  unfolding wwork_def by (intro post_conj wstep_completeChunk wkeep_completeChunk) simp_all

lemma wwork_registerChunk: "wwork i w0 w \<Longrightarrow> post (registerChunk j mr w) (\<lambda>r w'. wwork i w0 w')"
  unfolding wwork_def by (intro post_conj wstep_registerChunk wkeep_registerChunk) simp_all

lemma finishChunk_wwork:
  "wwork (c_id c) w0 w \<Longrightarrow>
   post (finishChunk c w) (\<lambda>r w'. wwork (c_id c) w0 w')"
  unfolding finishChunk_def
  apply (rule post_seq [where R = "wwork (c_id c)" and ?w0.0 = w0])
   apply (erule wwork_completeChunk)
  apply (rule post_ret)
  apply (erule wwork_emit)
  apply simp
  done

lemma refreshPartURL_wwork:
  "wwork i w0 w \<Longrightarrow> post (refreshPartURL w) (\<lambda>r w'. wwork i w0 w')"
  unfolding refreshPartURL_def getUploadPartURL_def
  by (cases "w_file w") (simp_all add: wwork_expect)

lemma redo_wwork:
  "wwork (c_id c) w0 w \<Longrightarrow>
   post (redo W c mr fc sleep w) (\<lambda>r w'. wwork (c_id c) w0 w')"
proof (induction W c mr fc sleep w rule: redo.induct)
  case (1 W c mr fc sleep w)
  note seq = post_seq [where R = "wwork (c_id c)" and ?w0.0 = w0]
  show ?case
  proof (cases "wb_Len (c_buf c)")
    case (Panic x)
    then show ?thesis by (simp add: redo.simps [of W c mr fc sleep w])
  next
    case (Ret len)
    show ?thesis
      unfolding redo.simps [of W c mr fc sleep w] Ret res.case
    proof (rule seq, goal_cases)
      case 1
      show ?case unfolding uploadPart_def by (rule wwork_expect [OF "1.prems"]) simp
    next
      case (2 a w1)
      obtain rd n e where a: "a = (rd, n, e)" by (cases a)
      note up = 2(2) [unfolded a]
      let ?w2 = "transported (c_id c) rd w1"
      have w2: "wwork (c_id c) w0 ?w2" using 2(1) by (rule wwork_transported)
      show ?case
      proof (cases "n \<noteq> len \<or> e \<noteq> None")
        case False
        then show ?thesis unfolding a
          by (auto simp: Let_def intro!: seq post_ret finishChunk_wwork w2)
      next
        case True
        note fail = this
        show ?thesis
        proof (cases "reupload W e")
          case False
          with fail show ?thesis unfolding a
            by (auto simp: Let_def intro!: seq post_ret finishChunk_wwork wwork_setErr w2)
        next
          case True
          let ?w3 = "emit (Sleep sleep) ?w2"
          have w3: "wwork (c_id c) w0 ?w3" using w2 by (rule wwork_emit) simp
          have "post (andThen (refreshPartURL ?w3)
                  (\<lambda>r w. case r of
                     Inl x \<Rightarrow> andThen (finishChunk c (setErr (Some x) w)) (\<lambda>_ w. ret None w)
                   | Inr f \<Rightarrow> redo W c (mr\<lparr>mr_read := rd\<rparr>) f
                       (if sleep * 2 > second * 15 then second * 15 else sleep * 2) w))
                 (\<lambda>r w'. wwork (c_id c) w0 w')"
          proof (rule seq, goal_cases)
            case 1
            show ?case by (rule refreshPartURL_wwork [OF w3])
          next
            case (2 x w4)
            show ?case
            proof (cases x)
              case (Inl y)
              then show ?thesis
                by (auto intro!: seq post_ret finishChunk_wwork wwork_setErr 2(1))
            next
              case (Inr f)
              have "post (redo W c (mr\<lparr>mr_read := rd\<rparr>) f
                       (if sleep * 2 > second * 15 then second * 15 else sleep * 2) w4)
                     (\<lambda>r w'. wwork (c_id c) w0 w')"
                by (rule "1.IH" [OF Ret up refl refl refl refl fail True refl refl refl 2(2) Inr 2(1)])
              then show ?thesis using Inr by simp
            qed
          qed
          with fail True show ?thesis unfolding a by (simp add: Let_def)
        qed
      qed
    qed
  qed
qed


lemma thread_chunk_wwork:
  assumes "wwork (c_id c) w0 w"
  shows "post (thread_chunk W fc c w) (\<lambda>r w'. wwork (c_id c) w0 w')"
proof -
  note seq = post_seq [where R = "wwork (c_id c)" and ?w0.0 = w0]
  show ?thesis
    unfolding thread_chunk_def
    by (auto simp: Let_def split: option.splits res.splits
             intro!: seq post_ret redo_wwork wwork_completeChunk wwork_registerChunk
                     wwork_setErr wwork_emit assms)
qed

lemma receive_wwork:
  assumes "wwork (c_id c) w0 w"
  shows "post (receive W i c w) (\<lambda>r w'. wwork (c_id c) w0 w')"
proof -
  note seq = post_seq [where R = "wwork (c_id c)" and ?w0.0 = w0]
  show ?thesis
    unfolding receive_def
    by (auto split: option.splits intro!: seq post_ret thread_chunk_wwork wwork_threads assms)
qed

text \<open>The calls made while a writer allocates a buffer or is promoted to a large file.\<close>

definition helper_event :: "event \<Rightarrow> bool" where
  "helper_event ev =
     (case ev of
        Call d c r \<Rightarrow> (case c of TempFile dir \<Rightarrow> True
                              | StartLargeFile n ct m \<Rightarrow> True
                              | GetUploadPartURL lf \<Rightarrow> True
                              | ListFileVersions k n i \<Rightarrow> True
                              | ListParts fi nx k \<Rightarrow> True
                              | _ \<Rightarrow> False)
      | CompileParts fi z \<Rightarrow> True
      | _ \<Rightarrow> False)"

lemma helper_event_simps [simp]:
  "helper_event (Call d (TempFile dir) r)"
  "helper_event (Call d (StartLargeFile n ct m) r)"
  "helper_event (Call d (GetUploadPartURL lf) r)"
  "helper_event (Call d (ListFileVersions k n i) r)"
  "helper_event (Call d (ListParts fi nx k) r)"
  "helper_event (CompileParts fi z)"
  by (simp_all add: helper_event_def)

definition same_core :: "writer \<Rightarrow> writer \<Rightarrow> bool" where
  "same_core w w' \<longleftrightarrow>
     trace w' = trace w \<and> script w' = script w \<and> w_err w' = w_err w \<and>
     ctx_done w' = ctx_done w \<and> smap w' = smap w \<and> owned w w'"

lemma wstep_same: "wstep P w0 w \<Longrightarrow> same_core w w' \<Longrightarrow> wstep P w0 w'"
proof (erule wstep_trans)
  assume s: "same_core w w'"
  show "wstep P w w'"
    unfolding wstep_def
  proof (intro conjI)
    show "trace_ext P w w'" unfolding trace_ext_def using s
      by (intro exI [of _ "[]"]) (simp add: same_core_def)
    show "latched w w'" using s by (simp add: latched_def same_core_def)
    show "owned w w'" using s by (simp add: same_core_def)
  qed
qed

lemma same_core_updates [simp]:
  "same_core w (w\<lparr>Resume := b\<rparr>)"
  "same_core w (w\<lparr>seen := sn\<rparr>)"
  "same_core w (w\<lparr>w_file := lf, ready := ch\<rparr>)"
  "same_core w (w\<lparr>ConcurrentUploads := n\<rparr>)"
  "same_core w (w\<lparr>once_done := b\<rparr>)"
  "same_core w (w\<lparr>threads := t\<rparr>)"
  "same_core w (w\<lparr>w_file := lf, ready := ch, ConcurrentUploads := n\<rparr>)"
  by (simp_all add: same_core_def owned_def)

lemmas wstep_updates =
  wstep_same [OF _ same_core_updates(1)] wstep_same [OF _ same_core_updates(2)]
  wstep_same [OF _ same_core_updates(3)] wstep_same [OF _ same_core_updates(4)]
  wstep_same [OF _ same_core_updates(5)] wstep_same [OF _ same_core_updates(6)]
  wstep_same [OF _ same_core_updates(7)]

lemma getBuffer_wstep:
  assumes "wstep helper_event w0 w"
  shows "post (getBuffer w) (\<lambda>r w'. wstep helper_event w0 w')"
proof -
  note seq = post_seq [where R = "wstep helper_event" and ?w0.0 = w0]
  show ?thesis
    unfolding getBuffer_def newFileBuffer_def TempFile_call_def
    by (auto split: sum.splits intro!: seq post_ret wstep_expect assms)
qed

lemma refreshPartURL_wstep:
  "wstep helper_event w0 w \<Longrightarrow> post (refreshPartURL w) (\<lambda>r w'. wstep helper_event w0 w')"
  unfolding refreshPartURL_def getUploadPartURL_def
  by (cases "w_file w") (simp_all add: wstep_expect)

lemma thread_wstep:
  assumes "wstep helper_event w0 w"
  shows "post (thread w) (\<lambda>r w'. wstep helper_event w0 w')"
proof -
  note seq = post_seq [where R = "wstep helper_event" and ?w0.0 = w0]
  show ?thesis
    unfolding thread_def
    by (auto split: sum.splits intro!: seq post_ret refreshPartURL_wstep wstep_pure assms)
qed

lemma threads_loop_wstep:
  "wstep helper_event w0 w \<Longrightarrow> post (threads_loop n w) (\<lambda>r w'. wstep helper_event w0 w')"
proof (induction n arbitrary: w)
  case 0
  then show ?case by (simp add: post_ret)
next
  case (Suc n)
  note seq = post_seq [where R = "wstep helper_event" and ?w0.0 = w0]
  show ?case
    by (auto intro!: seq thread_wstep Suc.prems Suc.IH)
qed

lemma getLargeFile_start_wstep:
  assumes "wstep helper_event w0 w"
  shows "post (getLargeFile_start w) (\<lambda>r w'. wstep helper_event w0 w')"
proof -
  note seq = post_seq [where R = "wstep helper_event" and ?w0.0 = w0]
  show ?thesis
    unfolding getLargeFile_start_def startLargeFile_def
    by (auto split: sum.splits intro!: seq post_ret wstep_expect assms)
qed

lemma ListObjects_wstep:
  assumes "wstep helper_event w0 w"
  shows "post (ListObjects k n w) (\<lambda>r w'. wstep helper_event w0 w')"
proof -
  note seq = post_seq [where R = "wstep helper_event" and ?w0.0 = w0]
  show ?thesis
    unfolding ListObjects_def listFileVersions_def
    by (auto split: sum.splits intro!: seq post_ret wstep_expect assms)
qed

lemma listParts_wstep:
  "wstep helper_event w0 w \<Longrightarrow> post (listParts fi nx k w) (\<lambda>r w'. wstep helper_event w0 w')"
  unfolding listParts_def by (rule wstep_expect) simp_all

lemma getLargeFile_loop_wstep:
  "wstep helper_event w0 w \<Longrightarrow>
   post (getLargeFile_loop nx sn sz w) (\<lambda>r w'. wstep helper_event w0 w')"
proof (induction nx sn sz w rule: getLargeFile_loop.induct)
  case (1 nx sn sz w)
  note seq = post_seq [where R = "wstep helper_event" and ?w0.0 = w0]
  show ?case
    unfolding getLargeFile_loop.simps [of nx sn sz w]
  proof (rule seq, goal_cases)
    case 1
    show ?case by (rule ListObjects_wstep [OF "1.prems"])
  next
    case (2 a w1)
    note w1 = 2(1) and lo = 2(2)
    obtain objs e where a: "a = (objs, e)" by (cases a)
    show ?case
    proof (cases e)
      case (Some x)
      then show ?thesis unfolding a by (simp add: post_ret w1)
    next
      case None
      note enone = this
      show ?thesis
      proof (cases "length objs < 1 \<or> fst (hd objs) \<noteq> w_name w1")
        case True
        then show ?thesis unfolding a enone by (simp add: post_ret w1)
      next
        case False
        note found = this
        have "post (andThen (listParts (snd (hd objs)) nx 100 w1)
                       (\<lambda>r w. case r of
                          Inl x \<Rightarrow> ret (None, Some x) w
                        | Inr (parts, n) \<Rightarrow>
                            (let seen' = fold (\<lambda>p m. m(p_number p \<mapsto> p_sha1 p)) parts sn;
                                 size' = sz + sum_list (map p_size parts)
                             in if length parts = 0 then ret (Some (snd (hd objs), seen', size'), None) w
                                else if n = 0 then ret (Some (snd (hd objs), seen', size'), None) w
                                else getLargeFile_loop n seen' size' w)))
                (\<lambda>r w'. wstep helper_event w0 w')"
        proof (rule seq, goal_cases)
          case 1
          show ?case by (rule listParts_wstep [OF w1])
        next
          case (2 b w2)
          show ?case
          proof (cases b)
            case (Inl x)
            then show ?thesis by (simp add: post_ret 2(1))
          next
            case (Inr pn)
            obtain parts n where pn: "pn = (parts, n)" by (cases pn)
            show ?thesis
            proof (cases "length parts = 0 \<or> n = 0")
              case True
              then show ?thesis unfolding Inr pn by (auto simp: Let_def post_ret 2(1))
            next
              case False
              then have np: "length parts \<noteq> 0" "n \<noteq> 0" by auto
              have "post (getLargeFile_loop n (fold (\<lambda>p m. m(p_number p \<mapsto> p_sha1 p)) parts sn)
                            (sz + sum_list (map p_size parts)) w2)
                      (\<lambda>r w'. wstep helper_event w0 w')"
                by (rule "1.IH" [OF lo [unfolded a] refl enone found refl 2(2) [unfolded Inr pn] refl
                           refl refl refl np 2(1)])
              with np show ?thesis unfolding Inr pn by (simp add: Let_def)
            qed
          qed
        qed
        with found show ?thesis unfolding a enone by (simp add: Let_def)
      qed
    qed
  qed
qed

lemma getLargeFile_wstep:
  assumes "wstep helper_event w0 w"
  shows "post (getLargeFile w) (\<lambda>r w'. wstep helper_event w0 w')"
proof -
  note seq = post_seq [where R = "wstep helper_event" and ?w0.0 = w0]
  show ?thesis
    unfolding getLargeFile_def
    by (auto split: option.splits prod.splits
             intro!: seq post_ret getLargeFile_start_wstep getLargeFile_loop_wstep wstep_emit
                     wstep_updates assms)
qed

lemma sendChunk_once_wstep:
  assumes "wstep helper_event w0 w"
  shows "post (sendChunk_once w) (\<lambda>r w'. wstep helper_event w0 w')"
proof -
  note seq = post_seq [where R = "wstep helper_event" and ?w0.0 = w0]
  show ?thesis
    unfolding sendChunk_once_def
    by (auto simp: Let_def split: option.splits prod.splits
             intro!: seq post_ret getLargeFile_wstep threads_loop_wstep thread_wstep
                     wstep_updates assms)
qed

lemma wstep_le: "wstep P u w' \<Longrightarrow> length (script w') \<le> length (script u)"
  by (simp add: wstep_def latched_def)

lemma receive_le:
  "receive W i c u = Some (Ret (r, w')) \<Longrightarrow> length (script w') \<le> length (script u)"
  using postD [OF receive_wwork [OF wwork_refl]] wstep_le unfolding wwork_def by blast

lemma getBuffer_le:
  "getBuffer u = Some (Ret (r, w')) \<Longrightarrow> length (script w') \<le> length (script u)"
  using postD [OF getBuffer_wstep [OF wstep_refl]] wstep_le by blast

lemma sendChunk_once_le:
  "sendChunk_once u = Some (Ret (r, w')) \<Longrightarrow> length (script w') \<le> length (script u)"
  using postD [OF sendChunk_once_wstep [OF wstep_refl]] wstep_le by blast

lemma select_lt:
  "select u = Some (Ret (r, w')) \<Longrightarrow> length (script w') < length (script u)"
  by (auto simp: select_def split: list.split_asm resp.split_asm option.split_asm chan.split_asm
                 if_split_asm)

lemma init_le:
  "init u = Some (Ret (r, w')) \<Longrightarrow> length (script w') \<le> length (script u)"
  by (auto simp: init_def Let_def emit_def elim!: andThenE dest!: getBuffer_le
           split: if_split_asm option.split_asm prod.split_asm)

lemma sendChunk_lt:
  assumes "sendChunk W w = Some (Ret (None, w'))"
  shows "length (script w') < length (script w)"
proof -
  from assms obtain e w1
    where A: "(if once_done w then ret None w else sendChunk_once (w\<lparr>once_done := True\<rparr>))
                = Some (Ret (e, w1))"
      and B: "(case e of
          Some x \<Rightarrow> ret (Some x) w1
        | None \<Rightarrow>
            andThen (select w1)
              (\<lambda>ch w. case ch of
                 None \<Rightarrow> ret (Some Canceled) w
               | Some i \<Rightarrow>
                   (case w_buf w of
                      None \<Rightarrow> Some (Panic NilDereference)
                    | Some b \<Rightarrow>
                        andThen (receive W i \<lparr>c_id = cidx w + 1, c_buf = b\<rparr>
                                   (emit (Send \<lparr>c_id = cidx w + 1, c_buf = b\<rparr>) w))
                          (\<lambda>_ w. andThen (getBuffer (w\<lparr>cidx := cidx w + 1\<rparr>))
                             (\<lambda>r w. case r of (v, e) \<Rightarrow>
                                (case e of
                                   Some x \<Rightarrow> ret (Some x) w
                                 | None \<Rightarrow> ret None (w\<lparr>w_buf := v\<rparr>))))))) = Some (Ret (None, w'))"
    unfolding sendChunk_def by (rule andThenE)
  from A have le1: "length (script w1) \<le> length (script w)"
    by (auto split: if_split_asm dest!: sendChunk_once_le)
  from B obtain ch w2 where sel: "select w1 = Some (Ret (ch, w2))"
    and C: "(case ch of
                 None \<Rightarrow> ret (Some Canceled) w2
               | Some i \<Rightarrow>
                   (case w_buf w2 of
                      None \<Rightarrow> Some (Panic NilDereference)
                    | Some b \<Rightarrow>
                        andThen (receive W i \<lparr>c_id = cidx w2 + 1, c_buf = b\<rparr>
                                   (emit (Send \<lparr>c_id = cidx w2 + 1, c_buf = b\<rparr>) w2))
                          (\<lambda>_ w. andThen (getBuffer (w\<lparr>cidx := cidx w + 1\<rparr>))
                             (\<lambda>r w. case r of (v, e) \<Rightarrow>
                                (case e of
                                   Some x \<Rightarrow> ret (Some x) w
                                 | None \<Rightarrow> ret None (w\<lparr>w_buf := v\<rparr>)))))) = Some (Ret (None, w'))"
    by (cases e) (auto elim!: andThenE)
  note lt2 = select_lt [OF sel]
  from C obtain i b where ch: "ch = Some i" and b: "w_buf w2 = Some b"
    by (cases ch; cases "w_buf w2") auto
  from C [unfolded ch b option.case] obtain u w3 r w4
    where rc: "receive W i \<lparr>c_id = cidx w2 + 1, c_buf = b\<rparr>
                 (emit (Send \<lparr>c_id = cidx w2 + 1, c_buf = b\<rparr>) w2) = Some (Ret (u, w3))"
      and gb: "getBuffer (w3\<lparr>cidx := cidx w3 + 1\<rparr>) = Some (Ret (r, w4))"
      and D: "(case r of (v, e) \<Rightarrow>
                                (case e of
                                   Some x \<Rightarrow> ret (Some x) w4
                                 | None \<Rightarrow> ret None (w4\<lparr>w_buf := v\<rparr>))) = Some (Ret (None, w'))"
    by (elim andThenE) blast
  from receive_le [OF rc] have le3: "length (script w3) \<le> length (script w2)" by simp
  from getBuffer_le [OF gb] have le4: "length (script w4) \<le> length (script w3)" by simp
  from D have "script w' = script w4"
    by (cases r) (auto split: option.split_asm)
  with le1 lt2 le3 le4 show ?thesis by simp
qed

function Write :: "world \<Rightarrow> writer \<Rightarrow> byte list \<Rightarrow> (int \<times> error option) outcome" where
  "Write W w p =
     andThen (init w)
       (\<lambda>_ w. case getErr w of
          Some err \<Rightarrow> ret (0, Some err) w
        | None \<Rightarrow>
            (case w_buf w of
               None \<Rightarrow> Some (Panic NilDereference)
             | Some b \<Rightarrow>
                 (case wb_Len b of
                    Panic x \<Rightarrow> Some (Panic x)
                  | Ret len \<Rightarrow>
                      (let left = csize w - len
                       in if int (length p) < left
                          then (case wb_Write b p of (n, e, b') \<Rightarrow> ret (n, e) (w\<lparr>w_buf := Some b'\<rparr>))
                          else if left < 0 then Some (Panic SliceBounds)
                          else
                            (case wb_Write b (take (nat left) p) of
                               (i, e, b') \<Rightarrow>
                                 (let w = w\<lparr>w_buf := Some b'\<rparr>
                                  in case e of
                                       Some err \<Rightarrow> ret (i, Some err) (setErr (Some err) w)
                                     | None \<Rightarrow>
                                         andThen (sendChunk W w)
                                           (\<lambda>e w. case e of
                                              Some err \<Rightarrow>
                                                (let w = setErr (Some err) w in ret (i, getErr w) w)
                                            | None \<Rightarrow>
                                                andThen (Write W w (drop (nat left) p))
                                                  (\<lambda>r w. case r of
                                                     (k, e) \<Rightarrow> ret (i + k, e) (setErr e w)))))))))"
  by pat_completeness auto
termination
  apply (relation "measure (\<lambda>(W, w, p). length (script w))")
   apply simp
  apply (auto dest!: init_le sendChunk_lt)
  done

declare Write.simps [simp del]


subsection \<open>The single-shot upload\<close>

function simpleWriteFile_redo ::
  "world \<Rightarrow> nat \<Rightarrow> meteredReader \<Rightarrow> string \<Rightarrow> string \<Rightarrow> writer \<Rightarrow> error option outcome" where
  "simpleWriteFile_redo W ue mr ctype sha w =
     (case w_buf w of
        None \<Rightarrow> Some (Panic NilDereference)
      | Some b \<Rightarrow>
          (case wb_Len b of
             Panic x \<Rightarrow> Some (Panic x)
           | Ret len \<Rightarrow>
               andThen (uploadFile ue mr len (w_name w) ctype sha (w_info w) w)
                 (\<lambda>r w. case r of (rd, f) \<Rightarrow>
                    (let w = transported 1 rd w; mr = mr\<lparr>mr_read := rd\<rparr>
                     in case f of
                          Inl err \<Rightarrow>
                            if reupload W (Some err) then
                              andThen (getUploadURL w)
                                (\<lambda>u w. case u of
                                   Inl err \<Rightarrow> ret (Some err) w
                                 | Inr u \<Rightarrow> simpleWriteFile_redo W u mr ctype sha w)
                            else ret (Some err) w
                        | Inr f \<Rightarrow> ret None (w\<lparr>o_f := Some f\<rparr>)))))"
  by pat_completeness auto
termination
  apply (relation "measure (\<lambda>(W, ue, mr, ctype, sha, w). length (script w))")
   apply simp
  apply (auto dest!: uploadFile_script getUploadURL_script)
  done

declare simpleWriteFile_redo.simps [simp del]

definition simpleWriteFile :: "world \<Rightarrow> writer \<Rightarrow> error option outcome" where
  "simpleWriteFile W w =
     andThen (getUploadURL w)
       (\<lambda>u w. case u of
          Inl err \<Rightarrow> ret (Some err) w
        | Inr ue \<Rightarrow>
            (case w_buf w of
               None \<Rightarrow> Some (Panic NilDereference)
             | Some b \<Rightarrow>
                 (let sha1 = wb_Hash (sha1_Sum W) b;
                      ctype = default_ctype (contentType w)
                  in case wb_Reader b of
                       Panic x \<Rightarrow> Some (Panic x)
                     | Ret (r, e) \<Rightarrow>
                         (case e of
                            Some err \<Rightarrow> ret (Some err) w
                          | None \<Rightarrow>
                              (case r of
                                 None \<Rightarrow> Some (Panic NilDereference)
                               | Some rd \<Rightarrow>
                                   (case wb_Len b of
                                      Panic x \<Rightarrow> Some (Panic x)
                                    | Ret len \<Rightarrow>
                                        (let mr = \<lparr>mr_read = 0, mr_size = len, mr_r = rd\<rparr>
                                         in andThen (registerChunk 1 mr w)
                                              (\<lambda>_ w. andThen (simpleWriteFile_redo W ue mr ctype sha1 w)
                                                 (\<lambda>e w. andThen (completeChunk 1 w)
                                                    (\<lambda>_ w. ret e w))))))))))"

function simpleWriteFromReader_redo ::
  "world \<Rightarrow> nat \<Rightarrow> meteredReader \<Rightarrow> int \<Rightarrow> string \<Rightarrow> writer \<Rightarrow> (int \<times> error option) outcome" where
  "simpleWriteFromReader_redo W ue mr size' ctype w =
     andThen (uploadFile ue mr (size' + 40) (w_name w) ctype ''hex_digits_at_end'' (w_info w) w)
       (\<lambda>r w. case r of (rd, f) \<Rightarrow>
          (let w = transported 1 rd w; mr = mr\<lparr>mr_read := rd\<rparr>
           in case f of
                Inl err \<Rightarrow>
                  if reupload W (Some err) then
                    andThen (getUploadURL w)
                      (\<lambda>u w. case u of
                         Inl err \<Rightarrow> ret (mr_read mr, Some err) w
                       | Inr u \<Rightarrow> simpleWriteFromReader_redo W u mr size' ctype w)
                  else ret (mr_read mr, Some err) w
              | Inr f \<Rightarrow> ret (mr_read mr, None) (w\<lparr>o_f := Some f\<rparr>)))"
  by pat_completeness auto
termination
  apply (relation "measure (\<lambda>(W, ue, mr, size', ctype, w). length (script w))")
   apply simp
  apply (auto dest!: uploadFile_script getUploadURL_script)
  done

declare simpleWriteFromReader_redo.simps [simp del]

definition simpleWriteFromReader ::
  "world \<Rightarrow> readSeeker \<Rightarrow> int \<Rightarrow> writer \<Rightarrow> (int \<times> error option) outcome" where
  "simpleWriteFromReader W rs size' w =
     andThen (getUploadURL w)
       (\<lambda>u w. case u of
          Inl err \<Rightarrow> ret (0, Some err) w
        | Inr ue \<Rightarrow>
            (let ctype = default_ctype (contentType w);
                 hr = \<lparr>hr_h = [], hr_r = rs, hr_isEOF = False, hr_buf = None\<rparr>;
                 mr = \<lparr>mr_read = 0, mr_size = size' + 40, mr_r = HashReader hr\<rparr>
             in andThen (registerChunk 1 mr w)
                  (\<lambda>_ w. andThen (simpleWriteFromReader_redo W ue mr size' ctype w)
                     (\<lambda>r w. andThen (completeChunk 1 w) (\<lambda>_ w. ret r w)))))"

subsection \<open>ReadFrom\<close>

text \<open>
  The argument of \<open>ReadFrom\<close> is an \<open>io.Reader\<close> that may or may not be an
  \<open>io.ReadSeeker\<close>.
\<close>

datatype ioSource = PlainReader "byte list" | SeekReader readSeeker

text \<open>
  Modelled from the spec: \<open>copyContext\<close>, which \<open>ReadFrom\<close> calls for a reader that
  cannot seek, is not among the sources. The spec says that \<open>readFrom\<close> then falls
  back to copying into \<open>write\<close>; the copy is one \<open>Write\<close> of the reader's bytes.
\<close>

definition copyContext :: "world \<Rightarrow> writer \<Rightarrow> byte list \<Rightarrow> (int \<times> error option) outcome" where
  "copyContext W w bs = Write W w bs"

definition ReadFrom :: "world \<Rightarrow> writer \<Rightarrow> ioSource \<Rightarrow> (int \<times> error option) outcome" where
  "ReadFrom W w r =
     andThen (init w)
       (\<lambda>_ w. case r of
          PlainReader bs \<Rightarrow> copyContext W w bs
        | SeekReader rs \<Rightarrow>
            (case rs_Seek rs 0 SeekEnd of
               (size', err, rs) \<Rightarrow>
                 (case err of
                    Some e \<Rightarrow> ret (0, Some e) w
                  | None \<Rightarrow>
                      if size' < ChunkSize w then
                        (case rs_Seek rs 0 SeekStart of
                           (_, err, rs) \<Rightarrow>
                             (case err of
                                Some e \<Rightarrow> ret (0, Some e) w
                              | None \<Rightarrow> simpleWriteFromReader W rs size' w))
                      else ret (0, None) w)))"

subsection \<open>Close and status\<close>

text \<open>
  The body of the function passed to \<open>done.Do\<close>, without its deferred calls.
  \<open>close(w.ready)\<close> makes every waiting worker return, so \<open>w.wg.Wait()\<close> returns with
  no worker left.
\<close>

definition Close_body :: "world \<Rightarrow> writer \<Rightarrow> unit outcome" where
  "Close_body W w =
     (if cidx w = 0 then andThen (simpleWriteFile W w) (\<lambda>e w. ret () (setErr e w))
      else
        (case w_buf w of
           None \<Rightarrow> Some (Panic NilDereference)
         | Some b \<Rightarrow>
             (case wb_Len b of
                Panic x \<Rightarrow> Some (Panic x)
              | Ret len \<Rightarrow>
                  andThen (if len > 0 then sendChunk W w else ret None w)
                    (\<lambda>e w. case e of
                       Some err \<Rightarrow> ret () (setErr (Some err) w)
                     | None \<Rightarrow>
                         (case ready w of
                            NilChan \<Rightarrow> Some (Panic NilChannel)
                          | ClosedChan \<Rightarrow> Some (Panic ClosedChannel)
                          | OpenChan \<Rightarrow>
                              (let w = w\<lparr>ready := ClosedChan, threads := []\<rparr>
                               in case w_file w of
                                    None \<Rightarrow> Some (Panic NilDereference)
                                  | Some lf \<Rightarrow>
                                      andThen (finishLargeFile lf w)
                                        (\<lambda>r w. case r of
                                           Inl err \<Rightarrow> ret () (setErr (Some err) w)
                                         | Inr f \<Rightarrow> ret () (w\<lparr>o_f := Some f\<rparr>))))))))"

text \<open>
  The deferred calls of \<open>Close\<close>, in the order they run: \<open>w.w.Close()\<close>, whose error
  is only logged, then \<open>removeWriter\<close>.
\<close>

definition Close_deferred :: "writer \<Rightarrow> unit outcome" where
  "Close_deferred w =
     (case w_buf w of
        None \<Rightarrow> Some (Panic NilDereference)
      | Some b \<Rightarrow>
          (case wb_Close b of
             (e, b') \<Rightarrow> ret () (emit RemoveWriter (w\<lparr>w_buf := Some b'\<rparr>))))"

definition Close :: "world \<Rightarrow> writer \<Rightarrow> error option outcome" where
  "Close W w =
     (if done_done w then ret (getErr w) w
      else
        (let w = w\<lparr>done_done := True\<rparr>
         in if \<not> everStarted w then ret (getErr w) w
            else andThen (Close_body W w)
                   (\<lambda>_ w. andThen (Close_deferred w) (\<lambda>_ w. ret (getErr w) w))))"


subsection \<open>A whole upload\<close>

text \<open>
  Modelled from the spec: \<open>NewWriter\<close> for this \<open>Writer\<close> is not among the sources (the
  \<open>NewWriter\<close> of b2.go fills fields this \<open>Writer\<close> does not have). By the spec the
  writer wraps the caller's context in a cancellation signal, allocates the active
  buffer and the progress map at the first write, and has no error, no large file
  and no chunk to begin with: every field but the name has its zero value.
\<close>

definition NewWriter :: "string \<Rightarrow> writer" where
  "NewWriter n =
     \<lparr>ConcurrentUploads = 0, Resume = False, ChunkSize = 0, UseFileBuffer = False,
      FileBufferDir = [], contentType = [], w_info = [], csize = 0, ctx_done = False,
      ready = NilChan, threads = [], start_done = False, once_done = False,
      done_done = False, w_file = None, seen = Map.empty, everStarted = False, o_f = None,
      w_name = n, cidx = 0, w_buf = None, w_err = None, smap = None, script = [],
      trace = []\<rparr>"

text \<open>
  \<open>fresh w\<close>: a writer as \<open>NewWriter\<close> returns it, with any configuration the caller
  has set, any script, and a context that may already be cancelled.
\<close>

definition fresh :: "writer \<Rightarrow> bool" where
  "fresh w \<longleftrightarrow>
     \<not> start_done w \<and> \<not> once_done w \<and> \<not> done_done w \<and> \<not> everStarted w \<and>
     cidx w = 0 \<and> w_buf w = None \<and> w_err w = None \<and> smap w = None \<and>
     ready w = NilChan \<and> threads w = [] \<and> w_file w = None \<and> seen w = Map.empty \<and>
     o_f w = None \<and> trace w = []"

fun Writes :: "world \<Rightarrow> writer \<Rightarrow> byte list list \<Rightarrow> (int \<times> error option) list outcome" where
  "Writes W w [] = ret [] w"
| "Writes W w (p # ps) =
     andThen (Write W w p) (\<lambda>r w. andThen (Writes W w ps) (\<lambda>rs w. ret (r # rs) w))"

definition upload ::
  "world \<Rightarrow> writer \<Rightarrow> byte list list \<Rightarrow> ((int \<times> error option) list \<times> error option) outcome" where
  "upload W w ps =
     andThen (Writes W w ps) (\<lambda>rs w. andThen (Close W w) (\<lambda>e w. ret (rs, e) w))"

subsection \<open>Reading a trace\<close>

text \<open>
  \<open>sleeps\<close> lists the delays of the \<open>time.Sleep\<close> calls of a trace, in order, in
  nanoseconds (the unit of \<open>time.Duration\<close>).
\<close>

fun sleeps :: "event list \<Rightarrow> int list" where
  "sleeps [] = []"
| "sleeps (Sleep d # evs) = d # sleeps evs"
| "sleeps (_ # evs) = sleeps evs"

subsection \<open>The retry protocol of a worker, as a property of traces\<close>






subsection \<open>The shape of a whole upload\<close>

text \<open>
  \<open>sends\<close> lists the chunks sent on \<open>ready\<close>, in the order of the trace.
  \<open>file_event\<close> holds of the backend calls of the single-shot path, \<open>part_event\<close> of
  what only the large-file path does. \<open>wb_bytes\<close> is the content of a buffer.
\<close>

fun sends :: "event list \<Rightarrow> chunk list" where
  "sends [] = []"
| "sends (Send c # evs) = c # sends evs"
| "sends (_ # evs) = sends evs"

definition file_event :: "event \<Rightarrow> bool" where
  "file_event ev =
     (case ev of
        Call d c r \<Rightarrow> (case c of GetUploadURL \<Rightarrow> True
                              | UploadFile ue mr n name ctype sha meta \<Rightarrow> True
                              | _ \<Rightarrow> False)
      | _ \<Rightarrow> False)"

definition part_event :: "event \<Rightarrow> bool" where
  "part_event ev =
     (case ev of
        Call d c r \<Rightarrow> (case c of StartLargeFile n ct m \<Rightarrow> True
                              | GetUploadPartURL lf \<Rightarrow> True
                              | UploadPart fc mr sha n idx \<Rightarrow> True
                              | FinishLargeFile lf \<Rightarrow> True
                              | ListFileVersions k n i \<Rightarrow> True
                              | ListParts fi nx k \<Rightarrow> True
                              | _ \<Rightarrow> False)
      | Sleep t \<Rightarrow> True
      | Send c \<Rightarrow> True
      | BufClose j \<Rightarrow> True
      | CompileParts fi z \<Rightarrow> True
      | _ \<Rightarrow> False)"

definition wb_bytes :: "writeBuffer \<Rightarrow> byte list" where
  "wb_bytes b =
     (case b of
        MemoryBuffer mb \<Rightarrow> (case mb_buf mb of None \<Rightarrow> [] | Some bs \<Rightarrow> bs)
      | FileBuffer fb \<Rightarrow> fb_f fb)"

text \<open>
  The chunk size a writer works with once \<open>init\<close> has run, and the number of chunks
  of a stream of \<open>T\<close> bytes cut into pieces of \<open>c\<close> bytes: none below \<open>c\<close> bytes, and
  \<open>T / c\<close> rounded up from \<open>c\<close> bytes on.
\<close>

definition chunk_size :: "writer \<Rightarrow> int" where
  "chunk_size w = (if ChunkSize w = 0 then 100000000 else ChunkSize w)"

definition chunks_of :: "int \<Rightarrow> int \<Rightarrow> int" where
  "chunks_of c T = (if T \<ge> c then (T + c - 1) div c else 0)"

text \<open>The value of a field of the writer after a call.\<close>

definition final :: "(writer \<Rightarrow> 'b) \<Rightarrow> 'a outcome \<Rightarrow> 'b res option" where
  "final f x =
     (case x of
        None \<Rightarrow> None
      | Some (Panic p) \<Rightarrow> Some (Panic p)
      | Some (Ret (a, w)) \<Rightarrow> Some (Ret (f w)))"

text \<open>
  What the proofs about whole uploads keep track of. \<open>wb_ok\<close>: the buffer is usable
  and its length is the length of its content. \<open>quiet\<close>: an event that is neither a
  send nor a call of the single-shot path. \<open>winv c data w\<close>: the writer \<open>w\<close> has been
  started, works with chunks of \<open>c\<close> bytes and has taken the bytes \<open>data\<close>, of which
  it has sent the first \<open>cidx w\<close> chunks and holds the rest.
\<close>

definition wb_ok :: "writeBuffer \<Rightarrow> bool" where
  "wb_ok b =
     (case b of
        MemoryBuffer mb \<Rightarrow> mb_buf mb \<noteq> None
      | FileBuffer fb \<Rightarrow> \<not> fb_closed fb \<and> fb_s fb = int (length (fb_f fb)))"

definition quiet :: "event \<Rightarrow> bool" where
  "quiet ev \<longleftrightarrow> sends [ev] = [] \<and> \<not> file_event ev"

definition winv :: "int \<Rightarrow> byte list \<Rightarrow> writer \<Rightarrow> bool" where
  "winv c data w \<longleftrightarrow>
     start_done w \<and> everStarted w \<and> \<not> done_done w \<and> csize w = c \<and> 0 \<le> cidx w \<and>
     cidx w * c \<le> int (length data) \<and>
     (\<exists>b. w_buf w = Some b \<and> wb_ok b \<and> wb_bytes b = drop (nat (cidx w * c)) data \<and>
          int (length (wb_bytes b)) < c) \<and>
     map c_id (sends (trace w)) = [1..cidx w] \<and>
     concat (map (\<lambda>ch. wb_bytes (c_buf ch)) (sends (trace w))) = take (nat (cidx w * c)) data \<and>
     list_all (\<lambda>ch. int (length (wb_bytes (c_buf ch))) = c) (sends (trace w)) \<and>
     filter file_event (trace w) = [] \<and>
     (cidx w = 0 \<longrightarrow> filter part_event (trace w) = [])"

text \<open>
  \<open>fstep w w'\<close>: what the single-shot path may do to the writer: it adds calls of its
  own to the trace and leaves the chunk counter, the active buffer and the latch
  alone.
\<close>

definition fstep :: "writer \<Rightarrow> writer \<Rightarrow> bool" where
  "fstep w w' \<longleftrightarrow>
     trace_ext file_event w w' \<and> cidx w' = cidx w \<and> w_buf w' = w_buf w \<and> w_err w' = w_err w"

text \<open>\<open>file_uploaded\<close> holds of an \<open>uploadFile\<close> call that the backend answered with a file.\<close>

definition file_uploaded :: "event \<Rightarrow> bool" where
  "file_uploaded ev =
     (case ev of
        Call d c r \<Rightarrow>
          (case c of
             UploadFile ue mr n name ctype sha meta \<Rightarrow>
               (case r of RUploadFile rd f \<Rightarrow> (case f of Inl e \<Rightarrow> False | Inr h \<Rightarrow> True)
                        | _ \<Rightarrow> False)
           | _ \<Rightarrow> False)
      | _ \<Rightarrow> False)"

text \<open>\<open>large_finished\<close> holds of a \<open>finishLargeFile\<close> call that the backend answered with a file.\<close>

definition large_finished :: "event \<Rightarrow> bool" where
  "large_finished ev =
     (case ev of
        Call d c r \<Rightarrow>
          (case c of
             FinishLargeFile lf \<Rightarrow>
               (case r of RFinishLargeFile f \<Rightarrow> (case f of Inl e \<Rightarrow> False | Inr h \<Rightarrow> True)
                        | _ \<Rightarrow> False)
           | _ \<Rightarrow> False)
      | _ \<Rightarrow> False)"

text \<open>
  The lengths of the chunks of a stream of \<open>T\<close> bytes cut into pieces of \<open>c\<close> bytes:
  \<open>T div c\<close> full chunks, then the remainder if there is one.
\<close>

definition chunk_lengths :: "int \<Rightarrow> int \<Rightarrow> int list" where
  "chunk_lengths c T =
     (if T < c then []
      else replicate (nat (T div c)) c @ (if T mod c = 0 then [] else [T mod c]))"

section \<open>Properties of the pass-through buffer\<close>

lemma wrap_id:
  assumes "0 < b" "- (2 ^ (b - 1)) \<le> x" "x < 2 ^ (b - 1)"
  shows "wrap b x = x"
proof -
  from assms(1) obtain c where b: "b = Suc c" by (cases b) auto
  have "(x + 2 ^ c) mod (2 * 2 ^ c) = x + 2 ^ c"
    using assms(2,3) unfolding b by (intro mod_pos_pos_trivial) simp_all
  then show ?thesis unfolding wrap_def b by simp
qed

lemma wrap64_id: "0 \<le> x \<Longrightarrow> x \<le> maxint64 \<Longrightarrow> wrap 64 x = x"
  by (rule wrap_id) (simp_all add: maxint64_def)

lemma length_fmt_x: "length (fmt_x bs) = 2 * length bs"
  by (induction bs) (simp_all add: fmt_x_def)

lemma hexdigit_lower: "n < 16 \<Longrightarrow> hexdigit n \<in> set ''0123456789abcdef''"
  unfolding hexdigit_def by (rule nth_mem) simp

lemma of_char_less_256: "(of_char b :: nat) < 256"
proof -
  have "(of_char b :: nat) mod 256 = of_char b" by simp
  moreover have "(of_char b :: nat) mod 256 < 256" by (rule mod_less_divisor) simp
  ultimately show ?thesis by simp
qed

lemma set_fmt_x: "set (fmt_x bs) \<subseteq> set ''0123456789abcdef''"
proof -
  have hi: "hexdigit ((of_char b :: nat) div 16) \<in> set ''0123456789abcdef''" for b :: char
  proof (rule hexdigit_lower)
    show "(of_char b :: nat) div 16 < 16" using of_char_less_256 [of b] by arith
  qed
  have lo: "hexdigit ((of_char b :: nat) mod 16) \<in> set ''0123456789abcdef''" for b :: char
    by (rule hexdigit_lower) simp
  show ?thesis unfolding fmt_x_def using hi lo by auto
qed

lemma take_drop_min:
  "take k (drop i s) @ drop (i + min k (length s - i)) s = drop i s"
proof (cases "k \<le> length s - i")
  case True
  then have "drop (i + min k (length s - i)) s = drop k (drop i s)"
    by (simp add: min_def add.commute)
  then show ?thesis by (simp only: append_take_drop_id)
next
  case False
  then show ?thesis by (simp add: min_def)
qed

lemma nb_ReadAll_suffix:
  assumes "nb_isEOF nb" "nb_buf nb = Some \<lparr>rd_s = s, rd_i = int i\<rparr>" "i \<le> length s"
    and "\<forall>k\<in>set ks. 0 < k" "length s - i < length ks"
  shows "nb_ReadAll H nb ks = Some (Ret (drop i s, None))"
  using assms
proof (induction ks arbitrary: nb i)
  case Nil
  then show ?case by simp
next
  case (Cons k ks)
  show ?case
  proof (cases "i = length s")
    case True
    with Cons.prems show ?thesis
      by (simp add: nb_Read_def reader_Read_def)
  next
    case False
    with Cons.prems have lt: "i < length s" by simp
    let ?n = "min k (length s - i)"
    let ?nb' = "nb\<lparr>nb_buf := Some \<lparr>rd_s = s, rd_i = int (i + ?n)\<rparr>\<rparr>"
    have rd: "nb_Read H nb k = Ret (take k (drop i s), None, ?nb')"
      using Cons.prems lt by (simp add: nb_Read_def reader_Read_def Let_def min_def)
    have kpos: "0 < k" using Cons.prems by simp
    have "nb_ReadAll H ?nb' ks = Some (Ret (drop (i + ?n) s, None))"
      using Cons.prems lt kpos by (intro Cons.IH) (auto simp: min_def)
    then show ?thesis using rd take_drop_min [of k i s] by simp
  qed
qed

text \<open>
  One \<open>Read\<close> of the section reader inside its window, from a source that does not
  fail: the bytes asked for, cut at the end of the window, and \<open>io.EOF\<close> with them
  only when they are the last bytes of the source and the source chooses to say so.
\<close>

lemma section_Read_inside:
  assumes s: "s = \<lparr>sr_r = ra, sr_base = off, sr_off = off + int j, sr_limit = off + int S\<rparr>"
    and off: "0 \<le> off" "nat off + S \<le> length (ra_s ra)" "int (length (ra_s ra)) \<le> maxint64"
    and err: "ra_err ra (ra_calls ra) = None"
    and j: "j < S"
  shows "section_Read s k =
           (take (min k (S - j)) (drop j (take S (drop (nat off) (ra_s ra)))),
            (if ra_eof ra (ra_calls ra) \<and> nat off + j + min k (S - j) = length (ra_s ra)
             then Some EOF else None),
            \<lparr>sr_r = ra\<lparr>ra_calls := ra_calls ra + 1\<rparr>, sr_base = off,
             sr_off = off + int (j + min k (S - j)), sr_limit = off + int S\<rparr>)"
proof -
  let ?rs = "ra_s ra"
  let ?n = "min k (S - j)"
  let ?data = "take S (drop (nat off) ?rs)"
  let ?bs = "take ?n (drop j ?data)"
  have w1: "wrap 64 (sr_limit s - sr_off s) = int (S - j)"
    using s j off by (simp add: wrap64_id)
  have k': "(if int k > wrap 64 (sr_limit s - sr_off s)
             then nat (wrap 64 (sr_limit s - sr_off s)) else k) = ?n"
    unfolding w1 by (auto simp add: min_def)
  have inrange: "nat (off + int j) < length ?rs" using off j by linarith
  have nat_eq: "nat (off + int j) = j + nat off" using off by linarith
  have bs_eq: "take ?n (drop (nat (off + int j)) ?rs) = ?bs"
  proof -
    have "drop (nat (off + int j)) ?rs = drop j (drop (nat off) ?rs)"
      unfolding nat_eq by simp
    moreover have "take ?n (drop j (take S (drop (nat off) ?rs))) = take ?n (drop j (drop (nat off) ?rs))"
      by (simp add: drop_take min_def)
    ultimately show ?thesis by simp
  qed
  have len_data: "length ?data = S" using off by simp
  have len_bs: "length ?bs = ?n" using len_data j by (simp add: min_def)
  have nonneg: "\<not> off + int j < 0" using off by simp
  have inside: "\<not> off + int j \<ge> int (length ?rs)" using off j by linarith
  have ra: "ReadAt ra ?n (off + int j) =
              (?bs, (if ra_eof ra (ra_calls ra) \<and> nat off + j + ?n = length ?rs then Some EOF else None),
               ra\<lparr>ra_calls := ra_calls ra + 1\<rparr>)"
    unfolding ReadAt_def Let_def using nonneg inside err bs_eq len_bs nat_eq
    by (simp add: add.commute add.left_commute)
  have noteof: "\<not> sr_off s \<ge> sr_limit s" using s j by simp
  have w2: "wrap 64 (off + int j + int ?n) = off + int (j + ?n)"
  proof -
    have "?n \<le> S - j" by simp
    then have "off + int j + int ?n \<le> int (length ?rs)" using off j by linarith
    then have "wrap 64 (off + int j + int ?n) = off + int j + int ?n"
      using off by (intro wrap64_id) linarith+
    then show ?thesis by simp
  qed
  define bs where "bs = ?bs"
  have ra': "ReadAt (sr_r s) ?n (sr_off s) =
              (bs, (if ra_eof ra (ra_calls ra) \<and> nat off + j + ?n = length ?rs then Some EOF else None),
               ra\<lparr>ra_calls := ra_calls ra + 1\<rparr>)"
    unfolding bs_def using ra by (simp add: s)
  have w2': "wrap 64 (sr_off s + int (length bs)) = off + int (j + ?n)"
    unfolding bs_def len_bs using w2 by (simp add: s)
  have "section_Read s k =
          (bs, (if ra_eof ra (ra_calls ra) \<and> nat off + j + ?n = length ?rs then Some EOF else None),
           s\<lparr>sr_r := ra\<lparr>ra_calls := ra_calls ra + 1\<rparr>, sr_off := off + int (j + ?n)\<rparr>)"
    unfolding section_Read_def k' Let_def ra' using noteof w2' by simp
  then show ?thesis unfolding bs_def by (simp add: s)
qed

lemma nb_ReadAll_stream:
  assumes win: "nb_r nb = \<lparr>sr_r = ra\<lparr>ra_calls := c\<rparr>, sr_base = off, sr_off = off + int j,
                            sr_limit = off + int S\<rparr>"
    and off: "0 \<le> off" "nat off + S \<le> length (ra_s ra)" "int (length (ra_s ra)) \<le> maxint64"
    and err: "\<forall>n. ra_err ra n = None"
    and j: "j \<le> S"
    and st: "\<not> nb_isEOF nb" "nb_hsh nb = take j (take S (drop (nat off) (ra_s ra)))"
    and ks: "\<forall>k\<in>set ks. 0 < k"
      "S - j + 1 + length (fmt_x (H (take S (drop (nat off) (ra_s ra))))) < length ks"
  shows "nb_ReadAll H nb ks =
           Some (Ret (drop j (take S (drop (nat off) (ra_s ra))) @
                      fmt_x (H (take S (drop (nat off) (ra_s ra)))), None))"
  using win j st ks
proof (induction ks arbitrary: nb j c)
  case Nil
  then show ?case by simp
next
  case (Cons k ks)
  let ?rs = "ra_s ra"
  let ?data = "take S (drop (nat off) ?rs)"
  let ?hex = "fmt_x (H ?data)"
  have len_data: "length ?data = S" using off by simp
  have kpos: "0 < k" using Cons.prems by simp
  show ?case
  proof (cases "j = S")
    case True
    let ?nb' = "nb\<lparr>nb_r := nb_r nb, nb_hsh := nb_hsh nb @ [], nb_isEOF := True,
                    nb_buf := Some (NewReader ?hex)\<rparr>"
    have rd: "nb_Read H nb k = Ret ([], None, ?nb')"
      using Cons.prems True len_data
      by (simp add: nb_Read_def section_Read_def Let_def)
    have "nb_ReadAll H ?nb' ks = Some (Ret (drop 0 ?hex, None))"
      using Cons.prems True
      by (intro nb_ReadAll_suffix) (simp_all add: NewReader_def)
    then show ?thesis using rd True len_data by simp
  next
    case False
    with Cons.prems have lt: "j < S" by simp
    let ?n = "min k (S - j)"
    let ?bs = "take ?n (drop j ?data)"
    let ?ra = "ra\<lparr>ra_calls := c\<rparr>"
    let ?r' = "\<lparr>sr_r = ?ra\<lparr>ra_calls := ra_calls ?ra + 1\<rparr>, sr_base = off,
                sr_off = off + int (j + ?n), sr_limit = off + int S\<rparr>"
    define last where "last \<longleftrightarrow> ra_eof ?ra (ra_calls ?ra) \<and> nat off + j + ?n = length (ra_s ?ra)"
    have sec: "section_Read (nb_r nb) k = (?bs, (if last then Some EOF else None), ?r')"
      unfolding last_def
      using section_Read_inside [OF Cons.prems(1) _ _ _ _ lt, of k] off err by simp
    have hsh: "take j ?data @ ?bs = take (j + ?n) ?data"
      by (simp only: take_add)
    have rest: "?bs @ drop (j + ?n) ?data = drop j ?data"
      using take_drop_min [of k j ?data] len_data by (simp add: min_def split: if_splits)
    show ?thesis
    proof (cases last)
      case last: True
      then have "nat off + (j + ?n) = length ?rs" unfolding last_def by simp
      moreover have "?n \<le> S - j" by simp
      ultimately have all: "j + ?n = S" using off(2) lt by linarith
      let ?nb' = "nb\<lparr>nb_r := ?r', nb_hsh := ?data, nb_isEOF := True,
                      nb_buf := Some (NewReader ?hex)\<rparr>"
      have full: "take (j + ?n) ?data = ?data" using all len_data by simp
      have rd: "nb_Read H nb k = Ret (?bs, None, ?nb')"
        unfolding nb_Read_def sec using Cons.prems(3,4) last hsh full
        by (simp add: Let_def)
      have "nb_ReadAll H ?nb' ks = Some (Ret (drop 0 ?hex, None))"
        using Cons.prems lt
        by (intro nb_ReadAll_suffix) (simp_all add: NewReader_def)
      moreover have "?bs = drop j ?data" using rest all len_data by simp
      ultimately show ?thesis using rd by simp
    next
      case notlast: False
      let ?nb' = "nb\<lparr>nb_r := ?r', nb_hsh := take (j + ?n) ?data\<rparr>"
      have rd: "nb_Read H nb k = Ret (?bs, None, ?nb')"
        unfolding nb_Read_def sec using Cons.prems(3,4) notlast hsh
        by (simp add: Let_def)
      have "nb_ReadAll H ?nb' ks = Some (Ret (drop (j + ?n) ?data @ ?hex, None))"
        using Cons.prems lt kpos by (intro Cons.IH [where c = "Suc c"]) (auto simp add: min_def)
      then show ?thesis using rd rest by simp
    qed
  qed
qed

lemma ReadAt_source:
  "\<exists>bs e. ReadAt ra k off = (bs, e, ra\<lparr>ra_calls := ra_calls ra + 1\<rparr>)"
  by (simp add: ReadAt_def Let_def split: option.splits prod.splits)

lemma section_Read_source:
  "\<exists>bs e r'. section_Read s k = (bs, e, r') \<and> sr_base r' = sr_base s \<and>
             sr_limit r' = sr_limit s \<and> (sr_r r')\<lparr>ra_calls := 0\<rparr> = (sr_r s)\<lparr>ra_calls := 0\<rparr>"
proof (cases "sr_off s \<ge> sr_limit s")
  case True
  then show ?thesis by (simp add: section_Read_def)
next
  case False
  define k' where "k' = (if int k > wrap 64 (sr_limit s - sr_off s)
                         then nat (wrap 64 (sr_limit s - sr_off s)) else k)"
  from ReadAt_source [of "sr_r s" k' "sr_off s"]
  obtain bs e where ra: "ReadAt (sr_r s) k' (sr_off s) =
      (bs, e, (sr_r s)\<lparr>ra_calls := ra_calls (sr_r s) + 1\<rparr>)"
    by blast
  have "section_Read s k =
          (bs, e, s\<lparr>sr_r := (sr_r s)\<lparr>ra_calls := ra_calls (sr_r s) + 1\<rparr>,
                     sr_off := wrap 64 (sr_off s + int (length bs))\<rparr>)"
    unfolding section_Read_def Let_def k'_def [symmetric] using False by (simp add: ra)
  then show ?thesis by simp
qed

lemma nb_Read_window:
  assumes "nb_window ra off lim nb"
  shows "\<exists>bs e nb'. nb_Read H nb k = Ret (bs, e, nb') \<and> nb_window ra off lim nb'"
proof (cases "nb_isEOF nb")
  case True
  with assms obtain b where "nb_buf nb = Some b" by (auto simp: nb_window_def)
  with True assms show ?thesis
    by (auto simp: nb_Read_def nb_window_def Let_def split: prod.splits)
next
  case False
  from section_Read_source [of "nb_r nb" k]
  obtain bs e r' where sec: "section_Read (nb_r nb) k = (bs, e, r')"
    and keep: "sr_base r' = sr_base (nb_r nb)" "sr_limit r' = sr_limit (nb_r nb)"
      "(sr_r r')\<lparr>ra_calls := 0\<rparr> = (sr_r (nb_r nb))\<lparr>ra_calls := 0\<rparr>"
    by blast
  show ?thesis
    using False assms keep
    by (simp add: nb_Read_def sec Let_def nb_window_def)
qed

lemma nb_Reads_window:
  "nb_window ra off lim nb \<Longrightarrow> \<exists>nb'. nb_Reads H nb ks = Ret nb' \<and> nb_window ra off lim nb'"
proof (induction ks arbitrary: nb)
  case Nil
  then show ?case by simp
next
  case (Cons k ks)
  from nb_Read_window [OF Cons.prems, of H k]
  obtain bs e nb' where rd: "nb_Read H nb k = Ret (bs, e, nb')" and w: "nb_window ra off lim nb'"
    by blast
  from Cons.IH [OF w] rd show ?case by simp
qed

lemma nb_window_source:
  assumes "nb_window ra off lim nb"
  shows "nb_r nb = \<lparr>sr_r = ra\<lparr>ra_calls := ra_calls (sr_r (nb_r nb))\<rparr>, sr_base = off,
                    sr_off = sr_off (nb_r nb), sr_limit = lim\<rparr>"
proof -
  have "sr_r (nb_r nb) = ra\<lparr>ra_calls := ra_calls (sr_r (nb_r nb))\<rparr>"
    using assms unfolding nb_window_def
    by (cases "sr_r (nb_r nb)"; cases ra) simp
  then show ?thesis using assms unfolding nb_window_def
    by (cases "nb_r nb") simp
qed

lemma nb_Seek_start:
  assumes "nb_window ra off lim nb" "0 \<le> off" "off \<le> maxint64"
  shows "nb_Seek nb 0 SeekStart =
           (0, None, nb\<lparr>nb_hsh := [], nb_isEOF := False,
                         nb_r := \<lparr>sr_r = ra\<lparr>ra_calls := ra_calls (sr_r (nb_r nb))\<rparr>, sr_base = off,
                                   sr_off = off, sr_limit = lim\<rparr>\<rparr>)"
proof -
  have w: "wrap 64 off = off" using assms by (simp add: wrap64_id)
  have z: "wrap 64 0 = 0" by (simp add: wrap64_id maxint64_def)
  have "section_Seek (nb_r nb) 0 SeekStart =
          (0, None, \<lparr>sr_r = ra\<lparr>ra_calls := ra_calls (sr_r (nb_r nb))\<rparr>, sr_base = off,
                     sr_off = off, sr_limit = lim\<rparr>)"
    by (subst nb_window_source [OF assms(1)])
       (simp add: section_Seek_def SeekStart_def SeekCurrent_def SeekEnd_def Let_def w z)
  then show ?thesis by (simp add: nb_Seek_def)
qed

text \<open>
  Claim C9. Take a pass-through buffer over the \<open>S\<close> bytes \<open>data\<close> found at offset \<open>off\<close>
  of a source that serves its bytes without I/O error, on a platform whose \<open>int\<close>
  has \<open>bits\<close> bits and can hold \<open>S + 40\<close>. The source is free to report \<open>io.EOF\<close>
  together with its last bytes or only afterwards, at every call. Then \<open>Write\<close> is
  rejected with an error and changes nothing, \<open>Hash\<close> is the sentinel
  \<open>hex_digits_at_end\<close>, \<open>Len\<close> is \<open>S + 40\<close>, and reading until \<open>io.EOF\<close> with non-empty
  slices yields \<open>data\<close> followed by the 40 lowercase hexadecimal digits that \<open>%x\<close>
  prints for the digest of \<open>data\<close>. After any earlier reads, \<open>Seek(0, SeekStart)\<close>
  returns offset 0 without error and clears the hash state and the EOF flag, and
  reading again yields the same stream.
\<close>

theorem nonBuffer_passthrough:
  assumes digest: "\<forall>bs. length (H bs) = 20"
    and width: "int S + 40 < 2 ^ (bits - 1)"
    and src: "0 \<le> off" "nat off + S \<le> length (ra_s ra)" "int (length (ra_s ra)) \<le> maxint64"
      "\<forall>n. ra_err ra n = None"
    and ks: "\<forall>k\<in>set ks. 0 < k" "S + 41 < length ks"
  shows "(let nb = newNonBuffer bits ra off (int S); data = take S (drop (nat off) (ra_s ra))
          in nb_Write nb p = (0, Some (ErrorString ''writes not supported''), nb) \<and>
             nb_Hash nb = ''hex_digits_at_end'' \<and>
             nb_Len bits nb = int S + 40 \<and>
             length data = S \<and>
             nb_ReadAll H nb ks = Some (Ret (data @ fmt_x (H data), None)) \<and>
             length (fmt_x (H data)) = 40 \<and>
             set (fmt_x (H data)) \<subseteq> set ''0123456789abcdef'' \<and>
             (\<exists>nb1 nb2. nb_Reads H nb ks1 = Ret nb1 \<and>
                        nb_Seek nb1 0 SeekStart = (0, None, nb2) \<and>
                        nb_hsh nb2 = [] \<and> \<not> nb_isEOF nb2 \<and>
                        nb_ReadAll H nb2 ks = Some (Ret (data @ fmt_x (H data), None))))"
proof -
  let ?nb = "newNonBuffer bits ra off (int S)"
  let ?data = "take S (drop (nat off) (ra_s ra))"
  let ?hex = "fmt_x (H ?data)"
  have bpos: "0 < bits"
  proof (rule ccontr)
    assume "\<not> 0 < bits"
    then have "bits = 0" by simp
    with width show False by simp
  qed
  have pos: "(0::int) < 2 ^ (bits - 1)" by simp
  have wS: "wrap bits (int S) = int S"
  proof (rule wrap_id [OF bpos])
    show "- (2 ^ (bits - 1)) \<le> int S" using pos by linarith
    show "int S < 2 ^ (bits - 1)" using width by linarith
  qed
  have wS40: "wrap bits (int S + 40) = int S + 40"
  proof (rule wrap_id [OF bpos])
    show "- (2 ^ (bits - 1)) \<le> int S + 40" using pos by linarith
    show "int S + 40 < 2 ^ (bits - 1)" by (rule width)
  qed
  have offle: "off \<le> maxint64" using src by linarith
  have w1: "wrap 64 (maxint64 - int S) = maxint64 - int S"
    using src by (intro wrap64_id) linarith+
  have w2: "wrap 64 (int S + off) = off + int S"
    using src by (subst wrap64_id) linarith+
  have lim: "off \<le> maxint64 - int S" using src by linarith
  have r0: "nb_r ?nb = \<lparr>sr_r = ra\<lparr>ra_calls := ra_calls ra\<rparr>, sr_base = off, sr_off = off + int 0,
                         sr_limit = off + int S\<rparr>"
    using lim by (simp add: newNonBuffer_def NewSectionReader_def w1 w2)
  have hexlen: "length ?hex = 40" using digest by (simp add: length_fmt_x)
  have enough: "S - 0 + 1 + length ?hex < length ks" using ks hexlen by simp
  have a: "nb_Write ?nb p = (0, Some (ErrorString ''writes not supported''), ?nb)"
    by (simp add: nb_Write_def)
  have b: "nb_Hash ?nb = ''hex_digits_at_end''" by (simp add: nb_Hash_def)
  have c: "nb_Len bits ?nb = int S + 40" by (simp add: nb_Len_def newNonBuffer_def wS wS40)
  have d: "length ?data = S" using src by simp
  have e: "nb_ReadAll H ?nb ks = Some (Ret (?data @ ?hex, None))"
    using nb_ReadAll_stream [where nb = ?nb and ra = ra and c = "ra_calls ra" and off = off
        and j = 0 and S = S and ks = ks and H = H] r0 src ks(1) enough
    by (simp add: newNonBuffer_def)
  have w0: "nb_window ra off (off + int S) ?nb"
    using r0 by (simp add: nb_window_def) (simp add: newNonBuffer_def)
  from nb_Reads_window [OF w0, of H ks1]
  obtain nb1 where r1: "nb_Reads H ?nb ks1 = Ret nb1" and w1: "nb_window ra off (off + int S) nb1"
    by blast
  let ?nb2 = "nb1\<lparr>nb_hsh := [], nb_isEOF := False,
                  nb_r := \<lparr>sr_r = ra\<lparr>ra_calls := ra_calls (sr_r (nb_r nb1))\<rparr>, sr_base = off,
                            sr_off = off, sr_limit = off + int S\<rparr>\<rparr>"
  have sk: "nb_Seek nb1 0 SeekStart = (0, None, ?nb2)"
    by (rule nb_Seek_start [OF w1 src(1) offle])
  have r2: "nb_r ?nb2 = \<lparr>sr_r = ra\<lparr>ra_calls := ra_calls (sr_r (nb_r nb1))\<rparr>, sr_base = off,
                          sr_off = off + int 0, sr_limit = off + int S\<rparr>"
    by simp
  have f: "nb_ReadAll H ?nb2 ks = Some (Ret (?data @ ?hex, None))"
    using nb_ReadAll_stream [where nb = ?nb2 and ra = ra and c = "ra_calls (sr_r (nb_r nb1))"
        and off = off and j = 0 and S = S and ks = ks and H = H] src ks(1) enough
    by simp
  have g: "\<exists>nb1 nb2. nb_Reads H ?nb ks1 = Ret nb1 \<and>
                        nb_Seek nb1 0 SeekStart = (0, None, nb2) \<and>
                        nb_hsh nb2 = [] \<and> \<not> nb_isEOF nb2 \<and>
                        nb_ReadAll H nb2 ks = Some (Ret (?data @ ?hex, None))"
    using r1 sk f by (intro exI [of _ nb1] exI [of _ ?nb2]) simp
  show ?thesis unfolding Let_def using a b c d e hexlen set_fmt_x [of "H ?data"] g by blast
qed

text \<open>
  The theorem at the window \<open>world\<close> of \<open>hello world\<close>, on a 32-bit platform, with a
  source that reports \<open>io.EOF\<close> together with its last byte, and a digest that depends
  on every byte written (the first 20 bytes, padded with \<open>z\<close>). The body is read four
  bytes at a time; the seek comes after five reads that went past the end of the
  data.
\<close>

theorem nonBuffer_passthrough_witness:
  "(let H = (\<lambda>bs. take 20 (bs @ ''zzzzzzzzzzzzzzzzzzzz''));
        ra = \<lparr>ra_s = ''hello world'', ra_eof = (\<lambda>n. True), ra_err = (\<lambda>n. None), ra_calls = 0\<rparr>;
        nb = newNonBuffer 32 ra 6 5
    in nb_Len 32 nb = 45 \<and>
       nb_ReadAll H nb (replicate 50 4) =
         Some (Ret (''world776f726c647a7a7a7a7a7a7a7a7a7a7a7a7a7a7a'', None)) \<and>
       (\<exists>nb1 nb2. nb_Reads H nb [3, 1, 1, 1, 7] = Ret nb1 \<and>
                  nb_Seek nb1 0 SeekStart = (0, None, nb2) \<and>
                  nb_hsh nb2 = [] \<and> \<not> nb_isEOF nb2 \<and>
                  nb_ReadAll H nb2 (replicate 50 4) =
                    Some (Ret (''world776f726c647a7a7a7a7a7a7a7a7a7a7a7a7a7a7a'', None))))"
proof -
  have z: "length ''zzzzzzzzzzzzzzzzzzzz'' = 20" by simp
  have digest: "\<forall>bs. length (take 20 (bs @ ''zzzzzzzzzzzzzzzzzzzz'')) = 20"
    unfolding length_take length_append z by simp
  from nonBuffer_passthrough [of "\<lambda>bs. take 20 (bs @ ''zzzzzzzzzzzzzzzzzzzz'')" 5 32 6
      "\<lparr>ra_s = ''hello world'', ra_eof = (\<lambda>n. True), ra_err = (\<lambda>n. None), ra_calls = 0\<rparr>"
      "replicate 50 4" "[]" "[3, 1, 1, 1, 7]", OF digest]
  show ?thesis
    by (simp add: maxint64_def Let_def fmt_x_def hexdigit_def)
qed

section \<open>Progress snapshots\<close>




section \<open>Runs of the writer on concrete inputs\<close>

lemmas run_defs =
  Write.simps redo.simps simpleWriteFile_redo.simps simpleWriteFromReader_redo.simps
  getLargeFile_loop.simps upload_def Close_def Close_body_def Close_deferred_def init_def
  getBuffer_def newFileBuffer_def
  sendChunk_def sendChunk_once_def getLargeFile_def getLargeFile_start_def
  simpleWriteFile_def simpleWriteFromReader_def ReadFrom_def copyContext_def
  backend_defs ListObjects_def expect_def andThen_def ret_def emit_def select_def receive_def
  thread_chunk_def thread_def refreshPartURL_def finishChunk_def completeChunk_def
  registerChunk_def transported_def setErr_def getErr_def NewWriter_def
  wb_Len_def mb_Len_def fb_Len_def wb_Write_def mb_Write_def fb_Write_def wb_Hash_def mb_Hash_def
  fb_Hash_def wb_Reader_def mb_Reader_def fb_Reader_def wb_Close_def mb_Close_def fb_Close_def
  newMemoryBuffer_def default_ctype_def Let_def millisecond_def second_def NewReader_def
  rs_Seek_def rs_Read_def reader_Seek_def reader_Read_def SeekStart_def SeekEnd_def SeekCurrent_def

text \<open>
  Claim C8, at a seekable source of 5000000 bytes and a writer whose \<open>ChunkSize\<close> is
  5000000: \<open>ReadFrom\<close> returns \<open>(0, nil)\<close> without a call to the backend and
  without an error in the latch, and the \<open>Close\<close> that follows uploads the empty
  active buffer as the whole file and returns \<open>nil\<close>.
\<close>

theorem ReadFrom_large_source_dropped:
  "\<exists>w1 wf. ReadFrom W ((NewWriter ''f'')\<lparr>ChunkSize := 5000000,
                 script := [RGetUploadURL (Inr 1), RUploadFile 0 (Inr 9)]\<rparr>)
             (SeekReader \<lparr>rs_rd = NewReader (replicate 5000000 (CHR ''a'')), rs_fail = None\<rparr>)
           = Some (Ret ((0, None), w1)) \<and>
         trace w1 = [AddWriter] \<and> w_err w1 = None \<and> o_f w1 = None \<and>
         Close W w1 = Some (Ret (None, wf)) \<and>
         trace wf =
           [AddWriter,
            Call False GetUploadURL (RGetUploadURL (Inr 1)),
            Call False (UploadFile 1 \<lparr>mr_read = 0, mr_size = 0, mr_r = BytesReader (NewReader [])\<rparr> 0
                          ''f'' ''application/octet-stream'' (fmt_x (sha1_Sum W [])) [])
                       (RUploadFile 0 (Inr 9)),
            RemoveWriter] \<and>
         o_f wf = Some 9"
  by (simp add: run_defs wrap_def)

text \<open>
  Claim C7, at a seekable source of 5 bytes and a writer whose \<open>ChunkSize\<close> was left
  unset: \<open>init\<close> gives \<open>csize\<close> the default \<open>1e8\<close>, but \<open>ReadFrom\<close> compares the size
  with \<open>ChunkSize\<close>, which is still 0, and returns \<open>(0, nil)\<close> without a call to the
  backend. The same source with \<open>ChunkSize\<close> set to \<open>1e8\<close> by the caller takes the
  fast path: one \<open>uploadFile\<close> of declared length 45 with the hash sentinel.
\<close>

theorem ReadFrom_default_threshold_unused:
  "(\<exists>w1. ReadFrom W ((NewWriter ''f'')\<lparr>script := [RGetUploadURL (Inr 1), RUploadFile 45 (Inr 9)]\<rparr>)
            (SeekReader \<lparr>rs_rd = NewReader ''hello'', rs_fail = None\<rparr>)
          = Some (Ret ((0, None), w1)) \<and>
        ChunkSize w1 = 0 \<and> csize w1 = 100000000 \<and>
        trace w1 = [AddWriter] \<and> w_err w1 = None \<and>
        script w1 = [RGetUploadURL (Inr 1), RUploadFile 45 (Inr 9)]) \<and>
   (\<exists>w2. ReadFrom W ((NewWriter ''f'')\<lparr>ChunkSize := 100000000,
                 script := [RGetUploadURL (Inr 1), RUploadFile 45 (Inr 9)]\<rparr>)
            (SeekReader \<lparr>rs_rd = NewReader ''hello'', rs_fail = None\<rparr>)
          = Some (Ret ((45, None), w2)) \<and>
        trace w2 =
          [AddWriter,
           Call False GetUploadURL (RGetUploadURL (Inr 1)),
           Call False
             (UploadFile 1
                \<lparr>mr_read = 0, mr_size = 45,
                   mr_r = HashReader \<lparr>hr_h = [], hr_r = \<lparr>rs_rd = NewReader ''hello'', rs_fail = None\<rparr>,
                                        hr_isEOF = False, hr_buf = None\<rparr>\<rparr>
                45 ''f'' ''application/octet-stream'' ''hex_digits_at_end'' [])
             (RUploadFile 45 (Inr 9))])"
  by (simp add: run_defs wrap_def)

text \<open>
  Claim C6, at a file of 5 bytes whose first \<open>uploadFile\<close> fails with an error that
  \<open>reupload\<close> accepts: \<open>simpleWriteFile\<close> asks for a new endpoint and uploads again
  at once, and the trace has no \<open>time.Sleep\<close>. The same failure of the \<open>uploadPart\<close>
  of a chunk of 5 bytes makes the worker sleep 15 ms before it asks for a new
  endpoint.
\<close>

theorem simpleWriteFile_retries_without_delay:
  "(let W = \<lparr>sha1_Sum = H, reupload = (\<lambda>e. e = Some (External 503))\<rparr>
    in (\<exists>wf. upload W ((NewWriter ''f'')\<lparr>script :=
                   [RGetUploadURL (Inr 1), RUploadFile 0 (Inl (External 503)),
                    RGetUploadURL (Inr 2), RUploadFile 5 (Inr 9)]\<rparr>) [''hello'']
              = Some (Ret (([(5, None)], None), wf)) \<and>
              trace wf =
                [AddWriter,
                 Call False GetUploadURL (RGetUploadURL (Inr 1)),
                 Call False (UploadFile 1 \<lparr>mr_read = 0, mr_size = 5, mr_r = BytesReader (NewReader ''hello'')\<rparr>
                               5 ''f'' ''application/octet-stream'' (fmt_x (H ''hello'')) [])
                            (RUploadFile 0 (Inl (External 503))),
                 Call False GetUploadURL (RGetUploadURL (Inr 2)),
                 Call False (UploadFile 2 \<lparr>mr_read = 0, mr_size = 5, mr_r = BytesReader (NewReader ''hello'')\<rparr>
                               5 ''f'' ''application/octet-stream'' (fmt_x (H ''hello'')) [])
                            (RUploadFile 5 (Inr 9)),
                 RemoveWriter] \<and>
              sleeps (trace wf) = []) \<and>
       (\<exists>wf. upload W ((NewWriter ''f'')\<lparr>ChunkSize := 5, script :=
                   [RStartLargeFile (Inr 7), RGetUploadPartURL (Inr 1), RSelect (Some 0),
                    RUploadPart 0 0 (Some (External 503)), RGetUploadPartURL (Inr 2),
                    RUploadPart 5 5 None, RFinishLargeFile (Inr 9)]\<rparr>) [''hello'']
              = Some (Ret (([(5, None)], None), wf)) \<and>
              sleeps (trace wf) = [15000000]))"
  by (simp add: run_defs wrap_def)

text \<open>
  Claim C3, at a writer that buffers in files and whose scratch file cannot be
  created: \<open>init\<close> latches the error and leaves the active buffer nil. \<open>Write\<close>
  returns \<open>(0, err)\<close>, and a second \<open>Write\<close> too; but \<open>Close\<close> does not return:
  it panics with a nil dereference, in \<open>simpleWriteFile\<close> when the upload endpoint
  is granted, and in the deferred \<open>w.w.Close()\<close> when it is refused.
\<close>

theorem Close_panics_after_failed_init:
  "\<exists>w1 w2. Write W ((NewWriter ''f'')\<lparr>UseFileBuffer := True, FileBufferDir := ''/nonexistent'',
                       script := [RTempFile (Inl (External 2))]\<rparr>) ''hello''
           = Some (Ret ((0, Some (External 2)), w1)) \<and>
         w_err w1 = Some (External 2) \<and> ctx_done w1 \<and> w_buf w1 = None \<and> script w1 = [] \<and>
         Write W w1 ''again'' = Some (Ret ((0, Some (External 2)), w2)) \<and> w2 = w1 \<and>
         Close W (w1\<lparr>script := [RGetUploadURL (Inr 1)]\<rparr>) = Some (Panic NilDereference) \<and>
         Close W (w1\<lparr>script := [RGetUploadURL (Inl Canceled)]\<rparr>) = Some (Panic NilDereference)"
  by (simp add: run_defs wrap_def)

section \<open>The retry protocol of the workers\<close>























end
